theory Spec2Isabelle
  imports Main "HOL-Library.AList" "HOL-Library.Char_ord" "HOL-Library.List_Lexorder" "HOL-Library.Word"
begin

unbundle bit_operations_syntax

section \<open>promgather: a shallow embedding of must-gather/promgather/main.go\<close>

text \<open>
  Go strings are byte sequences; they are modelled as \<^typ>\<open>string\<close> (a list of 8-bit
  characters), compared byte by byte as Go compares them. A Go function returning
  \<open>(value, error)\<close> is modelled as a pair of the value and an \<open>error option\<close> where the
  source can return both nil (\<open>getMetricList\<close>), and as a sum \<open>error + value\<close> for the
  library calls, where exactly one of the two is meaningful.
\<close>

datatype error =
    Error string
  | Errorf string string
  | EscapeError string
  | InvalidHostError string
  | UrlError string string error

text \<open>
  The error values of the program: \<open>Error text\<close> is \<open>errors.New(text)\<close>, and stands
  also for an error of the operating system or of another package, by its text;
  \<open>Errorf format a\<close> is \<open>fmt.Errorf(format, a)\<close> with its one argument;
  \<open>EscapeError s\<close> and \<open>InvalidHostError s\<close> are the values of these two types of
  net/url; \<open>UrlError op url err\<close> is \<open>&url.Error{Op: op, URL: url, Err: err}\<close>.
\<close>

subsection \<open>Package strings (the functions the program and net/url call)\<close>

definition Cut :: "string \<Rightarrow> char \<Rightarrow> string \<times> string \<times> bool" where
  \<comment> \<open>\<open>strings.Cut(s, sep)\<close> for a one-byte separator: the text before the first
      separator, the text after it, and whether it was found.\<close>
  "Cut s sep =
     (let r = dropWhile (\<lambda>x. x \<noteq> sep) s
      in (takeWhile (\<lambda>x. x \<noteq> sep) s, tl r, r \<noteq> []))"

definition HasPrefix :: "string \<Rightarrow> string \<Rightarrow> bool" where
  "HasPrefix s p = (take (length p) s = p)"

definition HasSuffix :: "string \<Rightarrow> string \<Rightarrow> bool" where
  "HasSuffix s p = (length p \<le> length s \<and> drop (length s - length p) s = p)"

definition Contains :: "string \<Rightarrow> char \<Rightarrow> bool" where
  "Contains s c = (c \<in> set s)"

definition Count :: "string \<Rightarrow> char \<Rightarrow> nat" where
  "Count s c = length (filter (\<lambda>x. x = c) s)"

primrec Index :: "string \<Rightarrow> string \<Rightarrow> int" where
  \<comment> \<open>\<open>strings.Index\<close>: the position of the first occurrence, or -1.\<close>
  "Index [] sub = (if sub = [] then 0 else - 1)"
| "Index (x # xs) sub =
     (if take (length sub) (x # xs) = sub then 0
      else (let r = Index xs sub in if r < 0 then - 1 else r + 1))"

definition LastIndex :: "string \<Rightarrow> char \<Rightarrow> int" where
  \<comment> \<open>\<open>strings.LastIndex\<close> for a one-byte pattern: the position of the last occurrence, or -1.\<close>
  "LastIndex s c =
     (if c \<in> set s then int (length s) - 1 - int (length (takeWhile (\<lambda>x. x \<noteq> c) (rev s)))
      else - 1)"

definition isLower :: "char \<Rightarrow> bool" where
  \<comment> \<open>\<open>'a' <= c && c <= 'z'\<close>\<close>
  "isLower c = (CHR ''a'' \<le> c \<and> c \<le> CHR ''z'')"

definition isUpper :: "char \<Rightarrow> bool" where
  \<comment> \<open>\<open>'A' <= c && c <= 'Z'\<close>\<close>
  "isUpper c = (CHR ''A'' \<le> c \<and> c \<le> CHR ''Z'')"

definition lowerByte :: "char \<Rightarrow> char" where
  "lowerByte c = (if isUpper c then char_of (of_char c + (32::nat)) else c)"

definition ToLower :: "string \<Rightarrow> string" where
  \<comment> \<open>\<open>strings.ToLower\<close> on ASCII text (it is applied to a URL scheme, which
      \<open>getScheme\<close> restricts to ASCII letters, digits, \<open>+\<close>, \<open>-\<close> and \<open>.\<close>).\<close>
  "ToLower s = map lowerByte s"

fun trimRightByte :: "string \<Rightarrow> char \<Rightarrow> string" where
  \<comment> \<open>\<open>for len(s) > 0 && s[len(s)-1] == c { s = s[:len(s)-1] }\<close>\<close>
  "trimRightByte s c = (if s \<noteq> [] \<and> last s = c then trimRightByte (butlast s) c else s)"

declare trimRightByte.simps [simp del]

fun trimLeftByte :: "string \<Rightarrow> char \<Rightarrow> string" where
  \<comment> \<open>\<open>for len(s) > 0 && s[0] == c { s = s[1:] }\<close>\<close>
  "trimLeftByte [] c = []"
| "trimLeftByte (x # xs) c = (if x = c then trimLeftByte xs c else x # xs)"

definition Trim :: "string \<Rightarrow> string \<Rightarrow> string" where
  \<comment> \<open>\<open>strings.Trim(s, cutset)\<close>. With a cutset of one ASCII byte, the only way the
      program calls it, Go takes the branch
      \<open>trimLeftByte(trimRightByte(s, cutset[0]), cutset[0])\<close>; a longer cutset trims every
      leading and trailing byte that belongs to it (ASCII cutsets).\<close>
  "Trim s cutset =
     (if s = [] \<or> cutset = [] then s
      else if length cutset = 1 then trimLeftByte (trimRightByte s (hd cutset)) (hd cutset)
      else rev (dropWhile (\<lambda>x. x \<in> set cutset) (rev (dropWhile (\<lambda>x. x \<in> set cutset) s))))"

subsection \<open>fmt.Sprintf("%d", n)\<close>

definition digit :: "nat \<Rightarrow> char" where
  "digit d = char_of (48 + d)"

fun utoa :: "nat \<Rightarrow> string" where
  "utoa n = (if n < 10 then [digit n] else utoa (n div 10) @ [digit (n mod 10)])"

declare utoa.simps [simp del]

definition itoa :: "int \<Rightarrow> string" where
  \<comment> \<open>The decimal text of a signed integer, as \<open>%d\<close> prints an \<open>int64\<close>.\<close>
  "itoa i = (if i < 0 then CHR ''-'' # utoa (nat (- i)) else utoa (nat i))"

subsection \<open>Package net/url\<close>

text \<open>
  The program builds its request URLs with \<open>url.Parse\<close>, \<open>URL.ResolveReference\<close>,
  \<open>URL.Query\<close>, \<open>Values.Set\<close>, \<open>Values.Encode\<close> and \<open>URL.String\<close>. These are
  functions of the Go standard library (net/url, as of Go 1.20); they are embedded here
  function by function, under their Go names, so that the URLs are computed and not assumed.
\<close>

datatype encoding =
  encodePath | encodePathSegment | encodeHost | encodeZone
  | encodeUserPassword | encodeQueryComponent | encodeFragment

record Userinfo =
  username :: string
  password :: string
  passwordSet :: bool

record URL =
  Scheme :: string
  Opaque :: string
  User :: "Userinfo option"
  Host :: string
  Path :: string
  RawPath :: string
  OmitHost :: bool
  ForceQuery :: bool
  RawQuery :: string
  Fragment :: string
  RawFragment :: string

definition emptyURL :: URL where
  \<comment> \<open>\<open>new(URL)\<close>: every field has its zero value.\<close>
  "emptyURL = \<lparr>Scheme = [], Opaque = [], User = None, Host = [], Path = [], RawPath = [],
     OmitHost = False, ForceQuery = False, RawQuery = [], Fragment = [], RawFragment = []\<rparr>"

definition isAlpha :: "char \<Rightarrow> bool" where
  "isAlpha c = (isLower c \<or> isUpper c)"

definition isDigit :: "char \<Rightarrow> bool" where
  "isDigit c = (CHR ''0'' \<le> c \<and> c \<le> CHR ''9'')"

definition ishex :: "char \<Rightarrow> bool" where
  "ishex c = (isDigit c \<or> CHR ''a'' \<le> c \<and> c \<le> CHR ''f'' \<or> CHR ''A'' \<le> c \<and> c \<le> CHR ''F'')"

definition unhex :: "char \<Rightarrow> nat" where
  "unhex c =
     (if isDigit c then of_char c - 48
      else if CHR ''a'' \<le> c \<and> c \<le> CHR ''f'' then of_char c - 97 + 10
      else if CHR ''A'' \<le> c \<and> c \<le> CHR ''F'' then of_char c - 65 + 10
      else 0)"

definition shouldEscape :: "char \<Rightarrow> encoding \<Rightarrow> bool" where
  \<comment> \<open>Whether the byte must be percent-escaped in the given part of a URL.\<close>
  "shouldEscape c mode =
     (if isAlpha c \<or> isDigit c then False
      else if (mode = encodeHost \<or> mode = encodeZone)
              \<and> c \<in> set (''!$&()*+,;=:[]<>'' @ [CHR 0x27, CHR 0x22]) then False
      else if c \<in> set ''-_.~'' then False
      else if c \<in> set ''$&+,/:;=?@'' then
        (case mode of
           encodePath \<Rightarrow> c = CHR ''?''
         | encodePathSegment \<Rightarrow> c \<in> set ''/;,?''
         | encodeUserPassword \<Rightarrow> c \<in> set ''@/?:''
         | encodeQueryComponent \<Rightarrow> True
         | encodeFragment \<Rightarrow> False
         | _ \<Rightarrow> True)
      else if mode = encodeFragment \<and> c \<in> set ''!()*'' then False
      else True)"

definition upperhex :: "nat \<Rightarrow> char" where
  \<comment> \<open>\<open>"0123456789ABCDEF"[n]\<close>\<close>
  "upperhex n = (if n < 10 then char_of (48 + n) else char_of (55 + n))"

definition escapeByte :: "encoding \<Rightarrow> char \<Rightarrow> string" where
  "escapeByte mode c =
     (if c = CHR '' '' \<and> mode = encodeQueryComponent then ''+''
      else if shouldEscape c mode
        then [CHR ''%'', upperhex (of_char c div 16), upperhex (of_char c mod 16)]
      else [c])"

definition escape :: "string \<Rightarrow> encoding \<Rightarrow> string" where
  "escape s mode = concat (map (escapeByte mode) s)"

fun unescapeCheck :: "string \<Rightarrow> encoding \<Rightarrow> error option" where
  \<comment> \<open>The first loop of \<open>unescape\<close>: every \<open>%\<close> starts a well-formed escape, and a
      host or zone holds no byte that would need escaping.\<close>
  "unescapeCheck [] mode = None"
| "unescapeCheck (c # s) mode =
     (if c = CHR ''%'' then
        (case s of
           h1 # h2 # s' \<Rightarrow>
             if \<not> ishex h1 \<or> \<not> ishex h2 then Some (EscapeError [c, h1, h2])
             else if mode = encodeHost \<and> unhex h1 < 8 \<and> [c, h1, h2] \<noteq> ''%25''
               then Some (EscapeError [c, h1, h2])
             else if mode = encodeZone \<and> [c, h1, h2] \<noteq> ''%25''
                     \<and> char_of (16 * unhex h1 + unhex h2) \<noteq> CHR '' ''
                     \<and> shouldEscape (char_of (16 * unhex h1 + unhex h2)) encodeHost
               then Some (EscapeError [c, h1, h2])
             else unescapeCheck s' mode
         | _ \<Rightarrow> Some (EscapeError (c # s)))
      else if c \<noteq> CHR ''+'' \<and> (mode = encodeHost \<or> mode = encodeZone)
              \<and> of_char c < (128::nat) \<and> shouldEscape c encodeHost
        then Some (InvalidHostError [c])
      else unescapeCheck s mode)"

fun unescapeBytes :: "string \<Rightarrow> encoding \<Rightarrow> string" where
  \<comment> \<open>The second loop of \<open>unescape\<close>, run on text the first loop accepted.\<close>
  "unescapeBytes (c # h1 # h2 # s) mode =
     (if c = CHR ''%'' then char_of (16 * unhex h1 + unhex h2) # unescapeBytes s mode
      else (if c = CHR ''+'' \<and> mode = encodeQueryComponent then CHR '' '' else c)
             # unescapeBytes (h1 # h2 # s) mode)"
| "unescapeBytes (c # s) mode =
     (if c = CHR ''+'' \<and> mode = encodeQueryComponent then CHR '' '' else c) # unescapeBytes s mode"
| "unescapeBytes [] mode = []"

definition unescape :: "string \<Rightarrow> encoding \<Rightarrow> error + string" where
  "unescape s mode =
     (case unescapeCheck s mode of Some e \<Rightarrow> Inl e | None \<Rightarrow> Inr (unescapeBytes s mode))"

fun getSchemeLoop :: "string \<Rightarrow> nat \<Rightarrow> string \<Rightarrow> error + string \<times> string" where
  \<comment> \<open>The loop of \<open>getScheme\<close> at position \<open>i\<close>, with \<open>rawURL[i:]\<close> as third argument.\<close>
  "getSchemeLoop rawURL i [] = Inr ([], rawURL)"
| "getSchemeLoop rawURL i (c # cs) =
     (if isAlpha c then getSchemeLoop rawURL (i + 1) cs
      else if isDigit c \<or> c \<in> set ''+-.'' then
        (if i = 0 then Inr ([], rawURL) else getSchemeLoop rawURL (i + 1) cs)
      else if c = CHR '':'' then
        (if i = 0 then Inl (Error ''missing protocol scheme'')
         else Inr (take i rawURL, drop (i + 1) rawURL))
      else Inr ([], rawURL))"

definition getScheme :: "string \<Rightarrow> error + string \<times> string" where
  "getScheme rawURL = getSchemeLoop rawURL 0 rawURL"

definition stringContainsCTLByte :: "string \<Rightarrow> bool" where
  "stringContainsCTLByte s = (\<exists>b \<in> set s. b < CHR '' '' \<or> b = CHR 0x7F)"

definition validOptionalPort :: "string \<Rightarrow> bool" where
  "validOptionalPort port =
     (case port of
        [] \<Rightarrow> True
      | c # ds \<Rightarrow> c = CHR '':'' \<and> list_all isDigit ds)"

definition validUserinfo :: "string \<Rightarrow> bool" where
  "validUserinfo s =
     list_all (\<lambda>r. isAlpha r \<or> isDigit r \<or> r \<in> set (''-._:~!$&()*+,;=%@'' @ [CHR 0x27])) s"

definition parseHost :: "string \<Rightarrow> error + string" where
  "parseHost host =
     (if HasPrefix host ''['' then
        (let i = LastIndex host CHR '']'' in
         if i < 0 then Inl (Error (''missing '' @ [CHR 0x27] @ '']'' @ [CHR 0x27] @ '' in host''))
         else if \<not> validOptionalPort (drop (nat i + 1) host)
           then Inl (Errorf ''invalid port %q after host'' (drop (nat i + 1) host))
         else
           (let zone = Index (take (nat i) host) ''%25'' in
            if zone \<ge> 0 then
              (case unescape (take (nat zone) host) encodeHost of
                 Inl e \<Rightarrow> Inl e
               | Inr host1 \<Rightarrow>
                  (case unescape (drop (nat zone) (take (nat i) host)) encodeZone of
                     Inl e \<Rightarrow> Inl e
                   | Inr host2 \<Rightarrow>
                      (case unescape (drop (nat i) host) encodeHost of
                         Inl e \<Rightarrow> Inl e
                       | Inr host3 \<Rightarrow> Inr (host1 @ host2 @ host3))))
            else unescape host encodeHost))
      else
        (let i = LastIndex host CHR '':'' in
         if i \<noteq> - 1 \<and> \<not> validOptionalPort (drop (nat i) host)
           then Inl (Errorf ''invalid port %q after host'' (drop (nat i) host))
         else unescape host encodeHost))"

definition parseUserinfo :: "string \<Rightarrow> error + Userinfo" where
  \<comment> \<open>The second half of \<open>parseAuthority\<close>: the text before the last \<open>@\<close>.\<close>
  "parseUserinfo userinfo =
     (if \<not> validUserinfo userinfo then Inl (Error ''net/url: invalid userinfo'')
      else if \<not> Contains userinfo CHR '':'' then
        (case unescape userinfo encodeUserPassword of
           Inl e \<Rightarrow> Inl e
         | Inr name \<Rightarrow> Inr \<lparr>username = name, password = [], passwordSet = False\<rparr>)
      else
        (case Cut userinfo CHR '':'' of
           (name0, pass0, _) \<Rightarrow>
             (case unescape name0 encodeUserPassword of
                Inl e \<Rightarrow> Inl e
              | Inr name \<Rightarrow>
                 (case unescape pass0 encodeUserPassword of
                    Inl e \<Rightarrow> Inl e
                  | Inr pass \<Rightarrow> Inr \<lparr>username = name, password = pass, passwordSet = True\<rparr>))))"

definition parseAuthority :: "string \<Rightarrow> error + Userinfo option \<times> string" where
  "parseAuthority authority =
     (let i = LastIndex authority CHR ''@'' in
      case (if i < 0 then parseHost authority else parseHost (drop (nat i + 1) authority)) of
        Inl e \<Rightarrow> Inl e
      | Inr host \<Rightarrow>
          if i < 0 then Inr (None, host)
          else (case parseUserinfo (take (nat i) authority) of
                  Inl e \<Rightarrow> Inl e
                | Inr user \<Rightarrow> Inr (Some user, host)))"

definition setPath :: "URL \<Rightarrow> string \<Rightarrow> error + URL" where
  "setPath u p =
     (case unescape p encodePath of
        Inl e \<Rightarrow> Inl e
      | Inr path \<Rightarrow>
          Inr (u\<lparr>Path := path, RawPath := (if p = escape path encodePath then [] else p)\<rparr>))"

definition setFragment :: "URL \<Rightarrow> string \<Rightarrow> error + URL" where
  "setFragment u f =
     (case unescape f encodeFragment of
        Inl e \<Rightarrow> Inl e
      | Inr frag \<Rightarrow>
          Inr (u\<lparr>Fragment := frag,
                 RawFragment := (if f = escape frag encodeFragment then [] else f)\<rparr>))"

definition parse :: "string \<Rightarrow> error + URL" where
  \<comment> \<open>\<open>parse(rawURL, viaRequest)\<close> with \<open>viaRequest = false\<close>, as \<open>url.Parse\<close> calls it.\<close>
  "parse rawURL =
     (if stringContainsCTLByte rawURL then Inl (Error ''net/url: invalid control character in URL'')
      else if rawURL = ''*'' then Inr (emptyURL\<lparr>Path := ''*''\<rparr>)
      else
       (case getScheme rawURL of
          Inl e \<Rightarrow> Inl e
        | Inr (scheme0, rest0) \<Rightarrow>
           (let url = emptyURL\<lparr>Scheme := ToLower scheme0\<rparr>;
                force = (HasSuffix rest0 ''?'' \<and> Count rest0 CHR ''?'' = 1);
                rest = (if force then butlast rest0 else fst (Cut rest0 CHR ''?''));
                url = (if force then url\<lparr>ForceQuery := True\<rparr>
                       else url\<lparr>RawQuery := fst (snd (Cut rest0 CHR ''?''))\<rparr>)
            in
            if \<not> HasPrefix rest ''/'' \<and> Scheme url \<noteq> [] then Inr (url\<lparr>Opaque := rest\<rparr>)
            else if \<not> HasPrefix rest ''/'' \<and> Contains (fst (Cut rest CHR ''/'')) CHR '':''
              then Inl (Error ''first path segment in URL cannot contain colon'')
            else if (Scheme url \<noteq> [] \<or> \<not> HasPrefix rest ''///'') \<and> HasPrefix rest ''//'' then
              (let a = drop 2 rest;
                   i = Index a ''/'';
                   authority = (if i \<ge> 0 then take (nat i) a else a);
                   rest' = (if i \<ge> 0 then drop (nat i) a else [])
               in case parseAuthority authority of
                    Inl e \<Rightarrow> Inl e
                  | Inr (user, host) \<Rightarrow> setPath (url\<lparr>User := user, Host := host\<rparr>) rest')
            else if Scheme url \<noteq> [] \<and> HasPrefix rest ''/'' then
              setPath (url\<lparr>OmitHost := True\<rparr>) rest
            else setPath url rest)))"

definition url_Parse :: "string \<Rightarrow> error + URL" where
  \<comment> \<open>\<open>url.Parse\<close>: cut off the fragment, parse the rest, then set the fragment; an
      error is wrapped in a \<open>*url.Error\<close>.\<close>
  "url_Parse rawURL =
     (case Cut rawURL CHR ''#'' of
        (u, frag, _) \<Rightarrow>
          (case parse u of
             Inl e \<Rightarrow> Inl (UrlError ''parse'' u e)
           | Inr url \<Rightarrow>
               if frag = [] then Inr url
               else (case setFragment url frag of
                       Inl e \<Rightarrow> Inl (UrlError ''parse'' rawURL e)
                     | Inr url' \<Rightarrow> Inr url')))"

definition validEncoded :: "string \<Rightarrow> encoding \<Rightarrow> bool" where
  "validEncoded s mode =
     list_all (\<lambda>c. c \<in> set (''!$&()*+,;=:@[]%'' @ [CHR 0x27]) \<or> \<not> shouldEscape c mode) s"

definition EscapedPath :: "URL \<Rightarrow> string" where
  "EscapedPath u =
     (if RawPath u \<noteq> [] \<and> validEncoded (RawPath u) encodePath
         \<and> unescape (RawPath u) encodePath = Inr (Path u) then RawPath u
      else if Path u = ''*'' then ''*''
      else escape (Path u) encodePath)"

definition EscapedFragment :: "URL \<Rightarrow> string" where
  "EscapedFragment u =
     (if RawFragment u \<noteq> [] \<and> validEncoded (RawFragment u) encodeFragment
         \<and> unescape (RawFragment u) encodeFragment = Inr (Fragment u) then RawFragment u
      else escape (Fragment u) encodeFragment)"

fun splitBytes :: "char \<Rightarrow> string \<Rightarrow> string list" where
  \<comment> \<open>The pieces that repeated \<open>strings.Cut(remaining, sep)\<close> yields, the last one being
      the text after the last separator.\<close>
  "splitBytes sep [] = [[]]"
| "splitBytes sep (x # xs) =
     (if x = sep then [] # splitBytes sep xs
      else (case splitBytes sep xs of
              h # t \<Rightarrow> (x # h) # t
            | [] \<Rightarrow> [[x]]))"

fun resolveElems :: "string list \<Rightarrow> string \<Rightarrow> bool \<Rightarrow> string" where
  \<comment> \<open>The loop of \<open>resolvePath\<close> over the path elements: \<open>dst\<close> is the text written so
      far (it starts with \<open>/\<close>), \<open>first\<close> says that no element has been written.\<close>
  "resolveElems [] dst first = dst"
| "resolveElems (elem # elems) dst first =
     (if elem = ''.'' then resolveElems elems dst False
      else if elem = ''..'' then
        (let str = tl dst; index = LastIndex str CHR ''/'' in
         if index = - 1 then resolveElems elems ''/'' True
         else resolveElems elems (''/'' @ take (nat index) str) first)
      else resolveElems elems ((if first then dst else dst @ ''/'') @ elem) False)"

definition resolvePath :: "string \<Rightarrow> string \<Rightarrow> string" where
  "resolvePath base ref =
     (let full = (if ref = [] then base
                  else if hd ref \<noteq> CHR ''/'' then take (nat (LastIndex base CHR ''/'' + 1)) base @ ref
                  else ref)
      in if full = [] then []
         else
          (let elems = splitBytes CHR ''/'' full;
               dst = resolveElems elems ''/'' True;
               r = (if last elems = ''.'' \<or> last elems = ''..'' then dst @ ''/'' else dst)
           in if length r > 1 \<and> r ! 1 = CHR ''/'' then tl r else r))"

definition setPathIgnoringError :: "URL \<Rightarrow> string \<Rightarrow> URL" where
  \<comment> \<open>\<open>url.setPath(p)\<close> with the error dropped: on an error the URL is left as it was.\<close>
  "setPathIgnoringError u p = (case setPath u p of Inl e \<Rightarrow> u | Inr u' \<Rightarrow> u')"

definition ResolveReference :: "URL \<Rightarrow> URL \<Rightarrow> URL" where
  "ResolveReference u ref =
     (let url = (if Scheme ref = [] then ref\<lparr>Scheme := Scheme u\<rparr> else ref) in
      if Scheme ref \<noteq> [] \<or> Host ref \<noteq> [] \<or> User ref \<noteq> None
        then setPathIgnoringError url (resolvePath (EscapedPath ref) [])
      else if Opaque ref \<noteq> [] then url\<lparr>User := None, Host := [], Path := []\<rparr>
      else
       (let url = (if Path ref = [] \<and> \<not> ForceQuery ref \<and> RawQuery ref = []
                   then (let url1 = url\<lparr>RawQuery := RawQuery u\<rparr> in
                         if Fragment ref = []
                           then url1\<lparr>Fragment := Fragment u, RawFragment := RawFragment u\<rparr>
                         else url1)
                   else url)
        in if Path ref = [] \<and> Opaque u \<noteq> []
             then url\<lparr>Opaque := Opaque u, User := None, Host := [], Path := []\<rparr>
           else setPathIgnoringError (url\<lparr>Host := Host u, User := User u\<rparr>)
                  (resolvePath (EscapedPath u) (EscapedPath ref))))"

definition Userinfo_String :: "Userinfo \<Rightarrow> string" where
  "Userinfo_String ui =
     escape (username ui) encodeUserPassword
     @ (if passwordSet ui then '':'' @ escape (password ui) encodeUserPassword else [])"

definition URL_String :: "URL \<Rightarrow> string" where
  "URL_String u =
     (let buf = (if Scheme u \<noteq> [] then Scheme u @ '':'' else []);
          buf =
            (if Opaque u \<noteq> [] then buf @ Opaque u
             else
              (let buf =
                     (if (Scheme u \<noteq> [] \<or> Host u \<noteq> [] \<or> User u \<noteq> None)
                         \<and> \<not> (OmitHost u \<and> Host u = [] \<and> User u = None)
                      then buf
                        @ (if Host u \<noteq> [] \<or> Path u \<noteq> [] \<or> User u \<noteq> None then ''//'' else [])
                        @ (case User u of None \<Rightarrow> [] | Some ui \<Rightarrow> Userinfo_String ui @ ''@'')
                        @ (if Host u \<noteq> [] then escape (Host u) encodeHost else [])
                      else buf);
                   path = EscapedPath u;
                   buf = (if path \<noteq> [] \<and> hd path \<noteq> CHR ''/'' \<and> Host u \<noteq> [] then buf @ ''/''
                          else buf);
                   buf = (if buf = [] \<and> Contains (fst (Cut path CHR ''/'')) CHR '':''
                          then buf @ ''./'' else buf)
               in buf @ path));
          buf = (if ForceQuery u \<or> RawQuery u \<noteq> [] then buf @ ''?'' @ RawQuery u else buf)
      in if Fragment u \<noteq> [] then buf @ ''#'' @ EscapedFragment u else buf)"

type_synonym Values = "(string \<times> string list) list"

text \<open>
  \<open>url.Values\<close> is a Go map from a key to a list of values. It is modelled as an
  association list with one entry for each key; the order of the entries has no meaning
  (\<open>Encode\<close> sorts the keys).
\<close>

definition QueryEscape :: "string \<Rightarrow> string" where
  "QueryEscape s = escape s encodeQueryComponent"

definition QueryUnescape :: "string \<Rightarrow> error + string" where
  "QueryUnescape s = unescape s encodeQueryComponent"

definition Values_Get :: "Values \<Rightarrow> string \<Rightarrow> string" where
  \<comment> \<open>\<open>Values.Get\<close>: the first value of the key, or the empty string.\<close>
  "Values_Get v key = (case map_of v key of Some (x # xs) \<Rightarrow> x | _ \<Rightarrow> [])"

definition Values_Set :: "Values \<Rightarrow> string \<Rightarrow> string \<Rightarrow> Values" where
  \<comment> \<open>\<open>v[key] = []string{value}\<close>\<close>
  "Values_Set v key val = AList.update key [val] v"

fun parseQueryPieces :: "string list \<Rightarrow> Values \<Rightarrow> Values" where
  \<comment> \<open>The loop of \<open>parseQuery\<close> over the \<open>&\<close>-separated pieces; the error it collects
      is dropped, as \<open>URL.Query\<close> drops it.\<close>
  "parseQueryPieces [] m = m"
| "parseQueryPieces (piece # pieces) m =
     (if Contains piece CHR '';'' \<or> piece = [] then parseQueryPieces pieces m
      else
       (case Cut piece CHR ''='' of
          (key0, value0, _) \<Rightarrow>
            (case QueryUnescape key0 of
               Inl e \<Rightarrow> parseQueryPieces pieces m
             | Inr key \<Rightarrow>
                (case QueryUnescape value0 of
                   Inl e \<Rightarrow> parseQueryPieces pieces m
                 | Inr val \<Rightarrow>
                    parseQueryPieces pieces
                      (AList.update key
                         ((case map_of m key of None \<Rightarrow> [] | Some vs \<Rightarrow> vs) @ [val]) m)))))"

definition URL_Query :: "URL \<Rightarrow> Values" where
  "URL_Query u = parseQueryPieces (splitBytes CHR ''&'' (RawQuery u)) []"

fun Join :: "string list \<Rightarrow> string \<Rightarrow> string" where
  \<comment> \<open>\<open>strings.Join\<close>\<close>
  "Join [] sep = []"
| "Join [x] sep = x"
| "Join (x # y # ys) sep = x @ sep @ Join (y # ys) sep"

definition Values_Encode :: "Values \<Rightarrow> string" where
  \<comment> \<open>Every \<open>key=value\<close> pair, both escaped, in the order of the sorted keys, with
      \<open>&\<close> between the pairs.\<close>
  "Values_Encode v =
     Join (concat (map (\<lambda>k. map (\<lambda>x. QueryEscape k @ ''='' @ QueryEscape x)
                                 (case map_of v k of None \<Rightarrow> [] | Some vs \<Rightarrow> vs))
                       (sort (map fst v)))) ''&''"

subsection \<open>Package net/http: requests and their headers\<close>

record Request =
  Method :: string
  ReqURL :: URL
  Header :: "string \<rightharpoonup> string list"
  ReqHost :: string

record Response =
  StatusCode :: int
  Status :: string
  Body :: string
  BodyErr :: "error option"

text \<open>
  A response body is a stream: \<open>Body\<close> holds the bytes that the reader delivers and
  \<open>BodyErr\<close> the error with which reading ends, \<open>None\<close> standing for a clean end of the
  stream.
\<close>

definition validHeaderFieldByte :: "char \<Rightarrow> bool" where
  \<comment> \<open>The token characters of RFC 7230.\<close>
  "validHeaderFieldByte c =
     (isAlpha c \<or> isDigit c \<or> c \<in> set (''!#$%&*+-.^_`|~'' @ [CHR 0x27]))"

fun canonicalLoop :: "bool \<Rightarrow> string \<Rightarrow> string" where
  \<comment> \<open>The second loop of \<open>canonicalMIMEHeaderKey\<close>: upper case for the first letter and
      for a letter after a dash, lower case for every other letter.\<close>
  "canonicalLoop upper [] = []"
| "canonicalLoop upper (c # cs) =
     (let c' = (if upper \<and> isLower c then char_of (of_char c - (32::nat))
                else if \<not> upper \<and> isUpper c then char_of (of_char c + (32::nat))
                else c)
      in c' # canonicalLoop (c' = CHR ''-'') cs)"

definition CanonicalMIMEHeaderKey :: "string \<Rightarrow> string" where
  \<comment> \<open>\<open>textproto.CanonicalMIMEHeaderKey\<close>: a key with a byte that is no token character
      is returned as it is (by the quick check, or by the first loop of
      \<open>canonicalMIMEHeaderKey\<close>); any other key is put in canonical form.\<close>
  "CanonicalMIMEHeaderKey s = (if list_all validHeaderFieldByte s then canonicalLoop True s else s)"

definition Header_Set :: "Request \<Rightarrow> string \<Rightarrow> string \<Rightarrow> Request" where
  \<comment> \<open>\<open>req.Header.Set(key, value)\<close>: the canonical key gets the one value.\<close>
  "Header_Set req key val = req\<lparr>Header := (Header req)(CanonicalMIMEHeaderKey key \<mapsto> [val])\<rparr>"

definition removeEmptyPort :: "string \<Rightarrow> string" where
  "removeEmptyPort h =
     (if LastIndex h CHR '':'' > LastIndex h CHR '']'' \<and> HasSuffix h '':'' then butlast h else h)"

definition http_NewRequest :: "string \<Rightarrow> string \<Rightarrow> error + Request" where
  \<comment> \<open>\<open>http.NewRequest(method, url, nil)\<close> for the valid method \<open>GET\<close>: the URL is parsed,
      the header map of the new request is empty.\<close>
  "http_NewRequest method url =
     (case url_Parse url of
        Inl e \<Rightarrow> Inl e
      | Inr u \<Rightarrow>
          Inr \<lparr>Method = method, ReqURL = u\<lparr>Host := removeEmptyPort (Host u)\<rparr>,
               Header = Map.empty, ReqHost = removeEmptyPort (Host u)\<rparr>)"

subsection \<open>The environment of a run\<close>

datatype os_call =
  CallOpenFile string | CallWrite string | CallRemoveAll string | CallMkdir string

record world =
  exec_Run :: "string \<Rightarrow> string list \<Rightarrow> error option \<times> string"
  clock :: "nat \<Rightarrow> int"
  http_Do :: "Request \<Rightarrow> error + Response"
  json_Decode :: "string \<Rightarrow> error option \<Rightarrow> error + string list"
  umask :: "32 word"
  os_fault :: "os_call \<Rightarrow> error option"
  short_write :: "string \<Rightarrow> nat"
  partial_remove :: "string \<Rightarrow> bool"

text \<open>
  Everything outside the program is a field of the \<open>world\<close>:
  \<^item> \<open>exec_Run command args\<close> is what \<open>cmd.Run()\<close> returns for that command line and the
    bytes it leaves in the buffer set as the command's standard output;
  \<^item> \<open>clock n\<close> is the \<open>n\<close>-th reading of the wall clock (\<open>time.Now()\<close>) in Unix seconds;
  \<^item> \<open>http_Do\<close> is \<open>http.Client.Do\<close> on the configured client: a transport error or a
    response;
  \<^item> \<open>json_Decode body err\<close> is \<open>json.NewDecoder(response.Body).Decode(&result)\<close> followed
    by reading \<open>result.Data\<close>, for a body stream with those bytes and that final error;
  \<^item> \<open>umask\<close> is the file mode creation mask of the process;
  \<^item> \<open>os_fault\<close> says which calls of package os the operating system refuses (no
    permission, no space, a missing parent directory, ...), \<open>short_write\<close> how many bytes a
    refused write had stored, and \<open>partial_remove\<close> which paths a refused \<open>RemoveAll\<close> had
    already removed.
\<close>

datatype node = Dir "32 word" | File "32 word" string

type_synonym filesystem = "string \<rightharpoonup> node"

datatype arg = NoArg | ErrArg error | StrArg string | DurArg int

record state =
  fs :: filesystem
  ticks :: nat
  console :: "error list"
  log :: "(string \<times> arg) list"

text \<open>
  The state of a run: the files and directories by the path names the program uses for
  them, with their permission bits (and the content of a regular file); the number of
  clock readings taken so far; what the default logger printed to standard error before
  the log file was set up; and the lines sent to the logger once it writes to standard
  output and to promgather.log, each as the format string of the call and its argument.
  The lines of \<open>log\<close> are the content of promgather.log; \<open>fs\<close> records for that file only
  that it exists, truncated, and its mode.
\<close>

definition logf :: "string \<Rightarrow> arg \<Rightarrow> state \<Rightarrow> state" where
  \<comment> \<open>\<open>log.Printf(format, a)\<close> and \<open>log.Println(text)\<close>\<close>
  "logf format a st = st\<lparr>log := log st @ [(format, a)]\<rparr>"

definition time_Now :: "world \<Rightarrow> state \<Rightarrow> int \<times> state" where
  "time_Now w st = (clock w (ticks st), st\<lparr>ticks := ticks st + 1\<rparr>)"

subsection \<open>Package os\<close>

definition os_OpenFile :: "world \<Rightarrow> string \<Rightarrow> 32 word \<Rightarrow> filesystem \<Rightarrow> error + filesystem" where
  \<comment> \<open>\<open>os.OpenFile(name, flags, perm)\<close> with \<open>O_CREATE|O_TRUNC\<close> among the flags, as both
      callers have it: an existing file is truncated and keeps its mode, a new file gets
      \<open>perm\<close> without the bits of the umask.\<close>
  "os_OpenFile w name perm f =
     (case os_fault w (CallOpenFile name) of
        Some e \<Rightarrow> Inl e
      | None \<Rightarrow>
         (case f name of
            Some (Dir m) \<Rightarrow> Inl (Error ''is a directory'')
          | Some (File m content) \<Rightarrow> Inr (f(name \<mapsto> File m []))
          | None \<Rightarrow> Inr (f(name \<mapsto> File (perm AND NOT (umask w)) []))))"

definition os_WriteFile ::
  "world \<Rightarrow> string \<Rightarrow> string \<Rightarrow> 32 word \<Rightarrow> filesystem \<Rightarrow> filesystem \<times> error option" where
  \<comment> \<open>\<open>os.WriteFile(name, data, perm)\<close>: open with \<open>O_WRONLY|O_CREATE|O_TRUNC\<close>, write,
      close. A refused write leaves the bytes it had stored.\<close>
  "os_WriteFile w name data perm f =
     (case os_OpenFile w name perm f of
        Inl e \<Rightarrow> (f, Some e)
      | Inr f' \<Rightarrow>
         (case f' name of
            Some (File m content) \<Rightarrow>
              (case os_fault w (CallWrite name) of
                 Some e \<Rightarrow> (f'(name \<mapsto> File m (take (short_write w name) data)), Some e)
               | None \<Rightarrow> (f'(name \<mapsto> File m data), None))
          | _ \<Rightarrow> (f', Some (Error ''bad file descriptor''))))"

definition below :: "string \<Rightarrow> string \<Rightarrow> bool" where
  \<comment> \<open>\<open>below dir p\<close>: the path \<open>p\<close> names something inside the directory \<open>dir\<close>.\<close>
  "below dir p = (HasPrefix p (dir @ ''/'') \<and> length p > length dir + 1)"

definition os_RemoveAll :: "world \<Rightarrow> string \<Rightarrow> filesystem \<Rightarrow> filesystem \<times> error option" where
  \<comment> \<open>\<open>os.RemoveAll(path)\<close>: the path and everything below it are removed; a path that
      does not exist is no error. A refused call has removed some of it.\<close>
  "os_RemoveAll w path f =
     (case os_fault w (CallRemoveAll path) of
        Some e \<Rightarrow> (\<lambda>p. if below path p \<and> partial_remove w p then None else f p, Some e)
      | None \<Rightarrow> (\<lambda>p. if p = path \<or> below path p then None else f p, None))"

definition os_Mkdir :: "world \<Rightarrow> string \<Rightarrow> 32 word \<Rightarrow> filesystem \<Rightarrow> error + filesystem" where
  \<comment> \<open>\<open>os.Mkdir(name, perm)\<close>: a new directory with \<open>perm\<close> without the bits of the umask.\<close>
  "os_Mkdir w name perm f =
     (case os_fault w (CallMkdir name) of
        Some e \<Rightarrow> Inl e
      | None \<Rightarrow>
         (case f name of
            Some n \<Rightarrow> Inl (Error ''file exists'')
          | None \<Rightarrow> Inr (f(name \<mapsto> Dir (perm AND NOT (umask w))))))"

definition io_ReadAll :: "Response \<Rightarrow> string \<times> error option" where
  \<comment> \<open>\<open>io.ReadAll(response.Body)\<close>: the bytes read, and the error unless the stream ended.\<close>
  "io_ReadAll response = (Body response, BodyErr response)"

subsection \<open>The program\<close>

record HttpClient =
  headers :: "(string \<times> string) list"
  host :: string

text \<open>
  \<open>HttpClient\<close> embeds the configured \<open>*http.Client\<close>, which is the field \<open>http_Do\<close> of the
  world. Its \<open>headers\<close> are a Go map from a header name to a value: an association list
  with one entry for each key, in the order in which the \<open>range\<close> loop of \<open>Get\<close> visits
  the keys (an order that the Go runtime chooses).
\<close>

definition HttpClient_request :: "HttpClient \<Rightarrow> string \<Rightarrow> error + Request" where
  \<comment> \<open>The request that \<open>HttpClient.Get\<close> constructs and hands to \<open>Do\<close>.\<close>
  "HttpClient_request httpClient url =
     (case http_NewRequest ''GET'' url of
        Inl e \<Rightarrow> Inl e
      | Inr req \<Rightarrow>
          Inr (foldl (\<lambda>r (headerKey, headerValue). Header_Set r headerKey headerValue)
                 req (headers httpClient)))"

definition HttpClient_Get :: "world \<Rightarrow> HttpClient \<Rightarrow> string \<Rightarrow> error + Response" where
  "HttpClient_Get w httpClient url =
     (case HttpClient_request httpClient url of
        Inl e \<Rightarrow> Inl e
      | Inr req \<Rightarrow> http_Do w req)"

definition getCmdResult :: "world \<Rightarrow> string \<Rightarrow> string list \<Rightarrow> string \<times> error option" where
  "getCmdResult w command args =
     (case exec_Run w command args of
        (Some err, out) \<Rightarrow> ([], Some err)
      | (None, out) \<Rightarrow> (Trim out [CHR 0x0A], None))"

definition selector :: string where
  \<comment> \<open>The Go string literal \<open>"{__name__=~\"(ceph|Ceph|noobaa|NooBaa|ocs|odf).+\"}"\<close>\<close>
  "selector = ''{__name__=~'' @ [CHR 0x22] @ ''(ceph|Ceph|noobaa|NooBaa|ocs|odf).+'' @ [CHR 0x22] @ ''}''"

definition getMetricList_url :: "string \<Rightarrow> int \<Rightarrow> int \<Rightarrow> (string \<times> error) + string" where
  \<comment> \<open>Lines 121 to 137 of \<open>getMetricList\<close>: the text of the request URL, from the host
      and the two clock readings; or the format of the log line and the parse error.\<close>
  "getMetricList_url h now1 now2 =
     (case url_Parse (''https://'' @ h) of
        Inl err \<Rightarrow> Inl (''Error parsing the host base url: %v\<newline>'', err)
      | Inr apiUrl \<Rightarrow>
         (case url_Parse ''api/v1/label/__name__/values'' of
            Inl err \<Rightarrow> Inl (''Error parsing the api endpoint: %v\<newline>'', err)
          | Inr apiPath \<Rightarrow>
             (let apiUrl = ResolveReference apiUrl apiPath;
                  query = URL_Query apiUrl;
                  query = Values_Set query ''start'' (itoa (now1 - 3600));
                  query = Values_Set query ''end'' (itoa now2);
                  query = Values_Set query ''match[]'' selector;
                  apiUrl = apiUrl\<lparr>RawQuery := Values_Encode query\<rparr>
              in Inr (URL_String apiUrl))))"

definition getMetricList ::
  "world \<Rightarrow> HttpClient \<Rightarrow> state \<Rightarrow> (string list \<times> error option) \<times> state" where
  \<comment> \<open>The result is the pair \<open>(list, err)\<close> that the Go function returns; \<open>list\<close>, never
      assigned, is the nil slice \<open>[]\<close>.\<close>
  "getMetricList w httpClient st =
     (case getMetricList_url (host httpClient) (clock w (ticks st)) (clock w (ticks st + 1)) of
        Inl (format, err) \<Rightarrow> (([], Some err), logf format (ErrArg err) st)
      | Inr url \<Rightarrow>
         (let st = st\<lparr>ticks := ticks st + 2\<rparr> in
          case HttpClient_Get w httpClient url of
            Inl err \<Rightarrow>
              (([], Some err), logf ''Error fetching the metric list: %v\<newline>'' (ErrArg err) st)
          | Inr response \<Rightarrow>
              if StatusCode response \<noteq> 200 then
                (([], None),
                 logf ''Metric list fetch not OK: HTTP status code %v\<newline>''
                   (StrArg (Status response)) st)
              else
                (case json_Decode w (Body response) (BodyErr response) of
                   Inl err \<Rightarrow>
                     (([], Some err),
                      logf ''Error parsing the metric list result: %v\<newline>'' (ErrArg err) st)
                 | Inr data \<Rightarrow> ((data, None), st))))"

definition getRangeQueryUrl :: "string \<Rightarrow> string \<Rightarrow> int \<Rightarrow> int \<Rightarrow> string \<times> error option" where
  \<comment> \<open>\<open>getRangeQueryUrl(host, metric)\<close>, with the two readings of the clock it takes.\<close>
  "getRangeQueryUrl h metric now1 now2 =
     (case url_Parse (''https://'' @ h) of
        Inl err \<Rightarrow> ([], Some err)
      | Inr apiUrl \<Rightarrow>
         (case url_Parse ''api/v1/query_range'' of
            Inl err \<Rightarrow> ([], Some err)
          | Inr apiPath \<Rightarrow>
             (let apiUrl = ResolveReference apiUrl apiPath;
                  query = URL_Query apiUrl;
                  query = Values_Set query ''query'' metric;
                  query = Values_Set query ''start'' (itoa (now1 - 3600));
                  query = Values_Set query ''end'' (itoa now2);
                  query = Values_Set query ''step'' ''60s'';
                  apiUrl = apiUrl\<lparr>RawQuery := Values_Encode query\<rparr>
              in (URL_String apiUrl, None))))"

definition getMetric :: "world \<Rightarrow> HttpClient \<Rightarrow> string \<Rightarrow> string \<Rightarrow> state \<Rightarrow> state" where
  \<comment> \<open>One task of the fan-out (the wait group only counts the finished tasks).\<close>
  "getMetric w httpClient metric metricsFolder st =
     (case getRangeQueryUrl (host httpClient) metric (clock w (ticks st)) (clock w (ticks st + 1)) of
        (queryUrl, Some err) \<Rightarrow> logf ''Error fetching the metric query: %v\<newline>'' (ErrArg err) st
      | (queryUrl, None) \<Rightarrow>
         (let st = st\<lparr>ticks := ticks st + 2\<rparr> in
          case HttpClient_Get w httpClient queryUrl of
            Inl err \<Rightarrow> logf ''Error fetching the metric: %v\<newline>'' (ErrArg err) st
          | Inr response \<Rightarrow>
              if StatusCode response \<noteq> 200 then
                logf ''Metric fetch not OK: HTTP status code %v\<newline>'' (StrArg (Status response)) st
              else
                (case io_ReadAll response of
                   (bodyData, Some err) \<Rightarrow>
                     logf ''Error reading the metric query response: %v\<newline>'' (ErrArg err) st
                 | (bodyData, None) \<Rightarrow>
                    (case os_WriteFile w (metricsFolder @ ''/'' @ metric @ ''.json'') bodyData 0x180
                            (fs st) of
                       (f, Some err) \<Rightarrow>
                         logf ''Error writing the metric file: %v\<newline>'' (ErrArg err) (st\<lparr>fs := f\<rparr>)
                     | (f, None) \<Rightarrow> st\<lparr>fs := f\<rparr>))))"

definition main_setup :: "world \<Rightarrow> state \<Rightarrow> state + HttpClient \<times> int \<times> state" where
  \<comment> \<open>Lines 38 to 74 of \<open>main\<close>: the state in which \<open>main\<close> returns early, or the HTTP
      client, the start time and the state with which it goes on. The mode \<open>0600\<close> is
      \<open>0x180\<close>.\<close>
  "main_setup w st =
     (case os_OpenFile w ''promgather.log'' 0x180 (fs st) of
        Inl err \<Rightarrow> Inl (st\<lparr>console := console st @ [err]\<rparr>)
      | Inr f \<Rightarrow>
         (let st = logf ''Starting: prometheus metrics gathering.'' NoArg (st\<lparr>fs := f\<rparr>);
              (start, st) = time_Now w st
          in case getCmdResult w ''oc'' [''whoami'', ''-t''] of
               (token, Some err) \<Rightarrow>
                 Inl (logf ''Error fetching the auth token: %v\<newline>'' (ErrArg err) st)
             | (token, None) \<Rightarrow>
                (let headers = AList.update ''Authorization'' (''Bearer '' @ token) [] in
                 case getCmdResult w ''oc''
                        [''-n'', ''openshift-monitoring'', ''get'', ''route'', ''thanos-querier'',
                         ''-ojsonpath={.spec.host}''] of
                   (h, Some err) \<Rightarrow>
                     Inl (logf ''Error fetching the api server host: %v\<newline>'' (ErrArg err) st)
                 | (h, None) \<Rightarrow> Inr (\<lparr>headers = headers, host = h\<rparr>, start, st))))"

definition metricsFolder :: string where
  "metricsFolder = ''./prom-metrics''"

definition main_prepare ::
  "world \<Rightarrow> state \<Rightarrow> state + HttpClient \<times> string list \<times> int \<times> state" where
  \<comment> \<open>Lines 38 to 96 of \<open>main\<close>: the state in which \<open>main\<close> returns early, or the client,
      the metric list, the start time and the state with which the fan-out starts. The
      mode \<open>0750\<close> is \<open>0x1E8\<close>.\<close>
  "main_prepare w st =
     (case main_setup w st of
        Inl st \<Rightarrow> Inl st
      | Inr (httpClient, start, st) \<Rightarrow>
         (case getMetricList w httpClient st of
            ((storageMetrics, Some err), st) \<Rightarrow>
              Inl (logf ''Error on fetching the metric list: %v\<newline>'' (ErrArg err) st)
          | ((storageMetrics, None), st) \<Rightarrow>
              if length storageMetrics = 0 then
                Inl (logf ''Error: prometheus storage metrics not found.'' NoArg st)
              else
               (case os_RemoveAll w metricsFolder (fs st) of
                  (f, Some err) \<Rightarrow>
                    Inl (logf ''Error removing the previous metrics folder: %v\<newline>'' (ErrArg err)
                           (st\<lparr>fs := f\<rparr>))
                | (f, None) \<Rightarrow>
                   (case os_Mkdir w metricsFolder 0x1E8 f of
                      Inl err \<Rightarrow>
                        Inl (logf ''Error creating the metrics folder: %v\<newline>'' (ErrArg err)
                               (st\<lparr>fs := f\<rparr>))
                    | Inr f' \<Rightarrow> Inr (httpClient, storageMetrics, start, st\<lparr>fs := f'\<rparr>)))))"

definition main :: "world \<Rightarrow> state \<Rightarrow> state" where
  \<comment> \<open>The whole run. The tasks of the fan-out run one after the other, in the order in
      which the loop starts them: a task touches the state only by reading the clock, by
      logging and by its one \<open>os.WriteFile\<close>.\<close>
  "main w st =
     (case main_prepare w st of
        Inl st \<Rightarrow> st
      | Inr (httpClient, storageMetrics, start, st) \<Rightarrow>
         (let st = foldl (\<lambda>s metric. getMetric w httpClient metric metricsFolder s) st storageMetrics;
              (now, st) = time_Now w st
          in logf ''Finished: prometheus metrics gathering. Time elapsed: %s\<newline>''
               (DurArg (now - start)) st))"

subsection \<open>Concrete environments\<close>

text \<open>
  A world in which both commands exit with status zero and print the given texts, the
  clock advances by one second from one reading to the next, the process has the usual
  umask \<open>022\<close> and the operating system refuses nothing; the HTTP server and the JSON
  decoder are parameters.
\<close>

definition hostArgs :: "string list" where
  "hostArgs = [''-n'', ''openshift-monitoring'', ''get'', ''route'', ''thanos-querier'',
               ''-ojsonpath={.spec.host}'']"

definition demo_world ::
  "string \<Rightarrow> string \<Rightarrow> (Request \<Rightarrow> error + Response) \<Rightarrow> (string \<Rightarrow> error + string list) \<Rightarrow> world" where
  "demo_world tokenOut hostOut server decode =
     \<lparr>exec_Run = (\<lambda>command args. (None, if args = [''whoami'', ''-t''] then tokenOut else hostOut)),
      clock = (\<lambda>n. 1700000000 + int n),
      http_Do = server,
      json_Decode = (\<lambda>body err. decode body),
      umask = 0x12,
      os_fault = (\<lambda>c. None),
      short_write = (\<lambda>p. 0),
      partial_remove = (\<lambda>p. False)\<rparr>"

definition respond :: "int \<Rightarrow> string \<Rightarrow> string \<Rightarrow> Request \<Rightarrow> error + Response" where
  \<comment> \<open>A server that answers every request with the same status and body.\<close>
  "respond code status body req =
     Inr \<lparr>StatusCode = code, Status = status, Body = body, BodyErr = None\<rparr>"

definition demo_decode :: "string \<Rightarrow> error + string list" where
  \<comment> \<open>What the JSON decoder yields on three bodies.\<close>
  "demo_decode body =
     (if body = ''{'' @ [CHR 0x22] @ ''data'' @ [CHR 0x22] @ '':[]}'' then Inr []
      else if body = ''{'' @ [CHR 0x22] @ ''data'' @ [CHR 0x22] @ '':['' @ [CHR 0x22]
                     @ ''ceph_osd_up'' @ [CHR 0x22] @ '']}'' then Inr [''ceph_osd_up'']
      else Inl (Error ''invalid character''))"

definition demo_state :: state where
  \<comment> \<open>A start with an output directory left by an earlier run.\<close>
  "demo_state =
     \<lparr>fs = [''./prom-metrics'' \<mapsto> Dir 0x1ED, ''./prom-metrics/old.json'' \<mapsto> File 0x1A4 ''stale''],
      ticks = 0, console = [], log = []\<rparr>"

subsection \<open>Host names\<close>

definition unreserved :: "char \<Rightarrow> bool" where
  \<comment> \<open>The unreserved characters of RFC 3986: letters, digits, \<open>-\<close>, \<open>.\<close>, \<open>_\<close> and \<open>~\<close>.
      A DNS host name, as the host of a route is, consists of them.\<close>
  "unreserved c = (isAlpha c \<or> isDigit c \<or> c \<in> set ''-._~'')"

definition hostOK :: "char \<Rightarrow> bool" where
  \<comment> \<open>A byte that neither ends the authority of a URL nor is a control character.\<close>
  "hostOK c = (c \<notin> set ''#?/'' \<and> \<not> (c < CHR '' '' \<or> c = CHR 0x7F))"

definition escaped :: "string \<Rightarrow> bool" where
  \<comment> \<open>Text made of the bytes that \<open>QueryEscape\<close> produces.\<close>
  "escaped s = list_all (\<lambda>x. unreserved x \<or> x = CHR ''%'' \<or> x = CHR ''+'') s"

section \<open>Properties\<close>

subsection \<open>Trimming\<close>

lemma trimLeftByte_dropWhile: "trimLeftByte s c = dropWhile (\<lambda>x. x = c) s"
  by (induction s) auto

lemma trimRightByte_snoc:
  "trimRightByte (s @ [x]) c = (if x = c then trimRightByte s c else s @ [x])"
  by (subst trimRightByte.simps) simp

lemma trimRightByte_Nil: "trimRightByte [] c = []"
  by (subst trimRightByte.simps) simp

lemma trimRightByte_dropWhile: "trimRightByte s c = rev (dropWhile (\<lambda>x. x = c) (rev s))"
  by (induction s rule: rev_induct) (auto simp: trimRightByte_Nil trimRightByte_snoc)

lemma Trim_byte:
  "Trim s [c] = dropWhile (\<lambda>x. x = c) (rev (dropWhile (\<lambda>x. x = c) (rev s)))"
  by (simp add: Trim_def trimLeftByte_dropWhile trimRightByte_dropWhile)

lemma takeWhile_eq_replicate:
  "takeWhile (\<lambda>x. x = c) s = replicate (length (takeWhile (\<lambda>x. x = c) s)) c"
  by (induction s) auto

lemma Trim_decompose:
  "s = replicate (length (takeWhile (\<lambda>x. x = c) (rev (dropWhile (\<lambda>x. x = c) (rev s))))) c
       @ Trim s [c]
       @ replicate (length (takeWhile (\<lambda>x. x = c) (rev s))) c"
proof -
  define t where "t = rev (dropWhile (\<lambda>x. x = c) (rev s))"
  have "s = rev (takeWhile (\<lambda>x. x = c) (rev s) @ dropWhile (\<lambda>x. x = c) (rev s))"
    by (simp only: takeWhile_dropWhile_id rev_rev_ident)
  also have "\<dots> = t @ rev (takeWhile (\<lambda>x. x = c) (rev s))"
    by (simp only: rev_append t_def)
  also have "rev (takeWhile (\<lambda>x. x = c) (rev s))
             = replicate (length (takeWhile (\<lambda>x. x = c) (rev s))) c"
    by (subst takeWhile_eq_replicate) simp
  finally have s: "s = t @ replicate (length (takeWhile (\<lambda>x. x = c) (rev s))) c" .
  have "t = takeWhile (\<lambda>x. x = c) t @ dropWhile (\<lambda>x. x = c) t"
    by simp
  also have "takeWhile (\<lambda>x. x = c) t = replicate (length (takeWhile (\<lambda>x. x = c) t)) c"
    by (rule takeWhile_eq_replicate)
  finally have t: "t = replicate (length (takeWhile (\<lambda>x. x = c) t)) c @ Trim s [c]"
    by (simp add: Trim_byte t_def)
  show ?thesis
    by (subst s, subst t) (simp add: t_def)
qed

lemma hd_dropWhile_neq:
  "dropWhile (\<lambda>x. x = c) s \<noteq> [] \<Longrightarrow> hd (dropWhile (\<lambda>x. x = c) s) \<noteq> c"
  using hd_dropWhile[of "\<lambda>x. x = c" s] by simp

lemma last_dropWhile_keep: "dropWhile P s \<noteq> [] \<Longrightarrow> last (dropWhile P s) = last s"
  by (induction s) auto

lemma Trim_ends:
  assumes "Trim s [c] \<noteq> []"
  shows "hd (Trim s [c]) \<noteq> c \<and> last (Trim s [c]) \<noteq> c"
proof -
  let ?t = "rev (dropWhile (\<lambda>x. x = c) (rev s))"
  have T: "Trim s [c] = dropWhile (\<lambda>x. x = c) ?t" by (simp add: Trim_byte)
  have d: "dropWhile (\<lambda>x. x = c) ?t \<noteq> []" using assms unfolding T .
  then have "hd (dropWhile (\<lambda>x. x = c) ?t) \<noteq> c" by (rule hd_dropWhile_neq)
  then have front: "hd (Trim s [c]) \<noteq> c" by (simp add: T)
  have ne: "?t \<noteq> []"
  proof
    assume "?t = []"
    then have "dropWhile (\<lambda>x. x = c) ?t = []" by (simp only: dropWhile.simps)
    with d show False by simp
  qed
  have "last ?t = hd (dropWhile (\<lambda>x. x = c) (rev s))"
    using ne by (simp add: last_rev)
  moreover have "hd (dropWhile (\<lambda>x. x = c) (rev s)) \<noteq> c"
    using ne hd_dropWhile_neq[of c "rev s"] by simp
  ultimately have "last ?t \<noteq> c" by simp
  moreover have "last (Trim s [c]) = last ?t"
    using d last_dropWhile_keep[of "\<lambda>x. x = c" ?t] by (simp add: T)
  ultimately show ?thesis using front by simp
qed

lemma Trim_only_cut:
  assumes "set s \<subseteq> {c}"
  shows "Trim s [c] = []"
proof -
  have "dropWhile (\<lambda>x. x = c) (rev s) = []"
    using assms by (auto simp: dropWhile_eq_Nil_conv)
  then show ?thesis by (simp only: Trim_byte rev.simps dropWhile.simps)
qed

lemma getCmdResult_ok:
  "exec_Run w command args = (None, out) \<Longrightarrow> getCmdResult w command args = (Trim out ''\<newline>'', None)"
  by (simp add: getCmdResult_def)

text \<open>
  C2 (as amended). When the external tool exits with status zero, the result of
  \<open>getCmdResult\<close> is the captured standard output without its leading and trailing
  newlines, all of them and not only one trailing newline: the output is some newlines,
  then the result, then some newlines, and a non-empty result neither starts nor ends
  with a newline. Nothing else is removed, so other white space and the newlines inside
  stay.
\<close>

theorem getCmdResult_trims_newlines:
  assumes "exec_Run w command args = (None, out)"
  shows "\<exists>i j r. getCmdResult w command args = (r, None)
           \<and> out = replicate i CHR 0x0A @ r @ replicate j CHR 0x0A
           \<and> (r \<noteq> [] \<longrightarrow> hd r \<noteq> CHR 0x0A \<and> last r \<noteq> CHR 0x0A)"
proof -
  let ?r = "Trim out ''\<newline>''"
  have "getCmdResult w command args = (?r, None)"
    using assms by (rule getCmdResult_ok)
  moreover have "out = replicate (length (takeWhile (\<lambda>x. x = CHR 0x0A)
                     (rev (dropWhile (\<lambda>x. x = CHR 0x0A) (rev out))))) CHR 0x0A
                   @ ?r @ replicate (length (takeWhile (\<lambda>x. x = CHR 0x0A) (rev out))) CHR 0x0A"
    by (rule Trim_decompose)
  moreover have "?r \<noteq> [] \<longrightarrow> hd ?r \<noteq> CHR 0x0A \<and> last ?r \<noteq> CHR 0x0A"
    using Trim_ends by blast
  ultimately show ?thesis by blast
qed

theorem getCmdResult_trims_newlines_witness:
  "exec_Run (demo_world ''abc123\<newline>'' ''example.com'' (respond 200 ''200 OK'' []) demo_decode)
      ''oc'' [''whoami'', ''-t''] = (None, ''abc123\<newline>'')
   \<and> (\<exists>i j r. getCmdResult (demo_world ''abc123\<newline>'' ''example.com'' (respond 200 ''200 OK'' [])
                    demo_decode) ''oc'' [''whoami'', ''-t''] = (r, None)
          \<and> ''abc123\<newline>'' = replicate i CHR 0x0A @ r @ replicate j CHR 0x0A
          \<and> (r \<noteq> [] \<longrightarrow> hd r \<noteq> CHR 0x0A \<and> last r \<noteq> CHR 0x0A))"
proof -
  have h: "exec_Run (demo_world ''abc123\<newline>'' ''example.com'' (respond 200 ''200 OK'' []) demo_decode)
             ''oc'' [''whoami'', ''-t''] = (None, ''abc123\<newline>'')"
    by (simp add: demo_world_def)
  show ?thesis
    using h getCmdResult_trims_newlines [OF h] by simp
qed

text \<open>
  C2 as the specification states it fails: two trailing newlines are both stripped
  (the output \<open>abc\<close> with two newlines gives \<open>abc\<close>, not \<open>abc\<close> with one newline), and a
  leading newline is stripped too.
\<close>

theorem getCmdResult_single_newline_counterexample:
  "getCmdResult (demo_world ''abc\<newline>\<newline>'' ''example.com'' (respond 200 ''200 OK'' []) demo_decode)
      ''oc'' [''whoami'', ''-t''] = (''abc'', None)
   \<and> getCmdResult (demo_world ''\<newline>abc'' ''example.com'' (respond 200 ''200 OK'' []) demo_decode)
      ''oc'' [''whoami'', ''-t''] = (''abc'', None)"
  by (simp add: getCmdResult_def demo_world_def Trim_byte)

subsection \<open>Strings of unreserved characters\<close>

lemma unreserved_facts:
  "\<forall>c. unreserved c \<longrightarrow>
     \<not> shouldEscape c encodeHost \<and> \<not> shouldEscape c encodeQueryComponent
     \<and> \<not> shouldEscape c encodePath
     \<and> \<not> (c < CHR '' '' \<or> c = CHR 0x7F) \<and> c \<notin> set ''#?/@%:[]+&=; *''"
  by code_simp

lemma unreservedD:
  assumes "list_all unreserved s" and "c \<in> set s"
  shows "\<not> shouldEscape c encodeHost" "\<not> shouldEscape c encodeQueryComponent"
    "\<not> shouldEscape c encodePath" "\<not> c < CHR '' ''" "c \<noteq> CHR 0x7F"
    "c \<notin> set ''#?/@%:[]+&=; *''"
proof -
  have "unreserved c" using assms by (simp add: list_all_iff)
  then have *: "\<not> shouldEscape c encodeHost \<and> \<not> shouldEscape c encodeQueryComponent
     \<and> \<not> shouldEscape c encodePath
     \<and> \<not> (c < CHR '' '' \<or> c = CHR 0x7F) \<and> c \<notin> set ''#?/@%:[]+&=; *''"
    using unreserved_facts by blast
  from * show "\<not> shouldEscape c encodeHost" by blast
  from * show "\<not> shouldEscape c encodeQueryComponent" by blast
  from * show "\<not> shouldEscape c encodePath" by blast
  from * show "\<not> c < CHR '' ''" by blast
  from * show "c \<noteq> CHR 0x7F" by blast
  from * show "c \<notin> set ''#?/@%:[]+&=; *''" by blast
qed

lemma unreserved_notin:
  assumes "list_all unreserved s" and "c \<in> set ''#?/@%:[]+&=; *''"
  shows "c \<notin> set s"
  using unreservedD(6)[OF assms(1)] assms(2) by blast

lemma Cut_notin:
  assumes "c \<notin> set s"
  shows "Cut s c = (s, [], False)"
proof -
  have tw: "takeWhile (\<lambda>x. x \<noteq> c) s = s" using assms by (induction s) auto
  have dw: "dropWhile (\<lambda>x. x \<noteq> c) s = []" using assms by (induction s) auto
  show ?thesis unfolding Cut_def Let_def tw dw by simp
qed

lemma Cut_append:
  assumes "c \<notin> set a"
  shows "Cut (a @ c # b) c = (a, b, True)"
proof -
  have tw: "takeWhile (\<lambda>x. x \<noteq> c) (a @ c # b) = a" using assms by (induction a) auto
  have dw: "dropWhile (\<lambda>x. x \<noteq> c) (a @ c # b) = c # b" using assms by (induction a) auto
  show ?thesis unfolding Cut_def Let_def tw dw by simp
qed

lemma Index_notin: "c \<notin> set s \<Longrightarrow> Index s [c] = - 1"
  by (induction s) auto

lemma Index_append: "c \<notin> set a \<Longrightarrow> Index (a @ c # b) [c] = int (length a)"
  by (induction a) auto

lemma LastIndex_notin: "c \<notin> set s \<Longrightarrow> LastIndex s c = - 1"
  by (simp add: LastIndex_def)

lemma HasPrefix_byte: "HasPrefix s [c] \<Longrightarrow> c \<in> set s"
  by (cases s) (auto simp: HasPrefix_def)

lemma HasPrefix_append: "HasPrefix (p @ s) p"
  by (simp add: HasPrefix_def)

lemma HasSuffix_byte: "HasSuffix s [c] \<Longrightarrow> c \<in> set s"
proof -
  assume "HasSuffix s [c]"
  then have "s \<noteq> []" and "drop (length s - 1) s = [c]"
    by (auto simp: HasSuffix_def)
  then show ?thesis by (metis in_set_dropD list.set_intros(1))
qed

lemma splitBytes_notin: "c \<notin> set s \<Longrightarrow> splitBytes c s = [s]"
  by (induction s) auto

lemma splitBytes_append: "c \<notin> set a \<Longrightarrow> splitBytes c (a @ c # b) = a # splitBytes c b"
  by (induction a) (auto split: list.splits)

lemma CTL_append: "stringContainsCTLByte (a @ b) = (stringContainsCTLByte a \<or> stringContainsCTLByte b)"
  by (auto simp: stringContainsCTLByte_def)

lemma CTL_unreserved: "list_all unreserved s \<Longrightarrow> \<not> stringContainsCTLByte s"
  using unreservedD(4,5) by (auto simp: stringContainsCTLByte_def)

lemma unescapeCheck_unreserved: "list_all unreserved s \<Longrightarrow> unescapeCheck s mode = None"
proof (induction s)
  case Nil
  then show ?case by simp
next
  case (Cons c s)
  have u: "list_all unreserved [c]" using Cons.prems by simp
  have "c \<noteq> CHR ''%''" using unreserved_notin[OF u, of "CHR ''%''"] by simp
  moreover have "\<not> shouldEscape c encodeHost" using unreservedD(1)[OF u, of c] by simp
  moreover have "unescapeCheck s mode = None" using Cons by simp
  ultimately show ?case by simp
qed

lemma unescapeBytes_plain:
  "CHR ''%'' \<notin> set s \<Longrightarrow> CHR ''+'' \<notin> set s \<Longrightarrow> unescapeBytes s mode = s"
  by (induction s mode rule: unescapeBytes.induct) auto

lemma unescape_unreserved: "list_all unreserved s \<Longrightarrow> unescape s mode = Inr s"
  using unreserved_notin[of s "CHR ''%''"] unreserved_notin[of s "CHR ''+''"]
  by (simp add: unescape_def unescapeCheck_unreserved unescapeBytes_plain)

lemma escape_plain:
  "\<forall>c \<in> set s. \<not> shouldEscape c mode \<and> c \<noteq> CHR '' '' \<Longrightarrow> escape s mode = s"
  by (induction s) (auto simp: escape_def escapeByte_def)

lemma escape_unreserved_host: "list_all unreserved s \<Longrightarrow> escape s encodeHost = s"
  using unreservedD(1) unreserved_notin[of s "CHR '' ''"] by (intro escape_plain) auto

lemma escape_unreserved_query: "list_all unreserved s \<Longrightarrow> QueryEscape s = s"
  unfolding QueryEscape_def
  using unreservedD(2) unreserved_notin[of s "CHR '' ''"] by (intro escape_plain) auto

subsection \<open>Parsing and printing URLs\<close>

lemma scheme_chars:
  "isAlpha CHR ''h''" "isAlpha CHR ''t''" "isAlpha CHR ''p''" "isAlpha CHR ''s''"
  "\<not> isAlpha CHR '':''" "\<not> isDigit CHR '':''" "CHR '':'' \<notin> set ''+-.''"
  by code_simp+

lemma getScheme_https: "getScheme (''https:'' @ r) = Inr (''https'', r)"
  by (simp add: getScheme_def scheme_chars)

lemma ToLower_https: "ToLower ''https'' = ''https''"
  by code_simp

lemma HasSuffix_byte_iff: "HasSuffix s [c] = (s \<noteq> [] \<and> last s = c)"
proof (cases s rule: rev_cases)
  case Nil
  then show ?thesis by (simp add: HasSuffix_def)
next
  case (snoc ys y)
  then show ?thesis by (auto simp: HasSuffix_def)
qed

lemma parseHost_unreserved:
  assumes "list_all unreserved h"
  shows "parseHost h = Inr h"
proof -
  have 1: "\<not> HasPrefix h ''[''"
    using HasPrefix_byte[of h "CHR ''[''"] unreserved_notin[OF assms, of "CHR ''[''"] by auto
  have 2: "LastIndex h CHR '':'' = - 1"
    using unreserved_notin[OF assms, of "CHR '':''"] by (simp add: LastIndex_notin)
  show ?thesis
    by (simp add: parseHost_def 1 2 unescape_unreserved[OF assms])
qed

lemma parseAuthority_unreserved:
  assumes "list_all unreserved h"
  shows "parseAuthority h = Inr (None, h)"
proof -
  have "LastIndex h CHR ''@'' = - 1"
    using unreserved_notin[OF assms, of "CHR ''@''"] by (simp add: LastIndex_notin)
  then show ?thesis
    by (simp add: parseAuthority_def parseHost_unreserved[OF assms])
qed

lemma hostOK_facts:
  "\<forall>c. ishex c \<longrightarrow> hostOK c"
  "\<forall>c. \<not> (of_char c < (128::nat) \<and> shouldEscape c encodeHost) \<longrightarrow> hostOK c"
  "hostOK CHR ''%''" "hostOK CHR ''+''"
  by code_simp+

lemma unescapeCheck_hostOK:
  "unescapeCheck s mode = None \<Longrightarrow> mode = encodeHost \<or> mode = encodeZone \<Longrightarrow> c \<in> set s \<Longrightarrow> hostOK c"
proof (induction s rule: length_induct)
  case (1 s)
  then obtain x t where s: "s = x # t" by (cases s) auto
  show ?case
  proof (cases "x = CHR ''%''")
    case True
    then obtain h1 h2 s' where t: "t = h1 # h2 # s'"
      using "1.prems"(1) s by (cases t; cases "tl t") auto
    have hx: "ishex h1" "ishex h2" and rest: "unescapeCheck s' mode = None"
      using "1.prems"(1) True s t by (auto split: if_splits)
    have "c = x \<or> c = h1 \<or> c = h2 \<or> c \<in> set s'" using "1.prems"(3) s t by auto
    moreover have "length s' < length s" using s t by simp
    then have "c \<in> set s' \<Longrightarrow> hostOK c"
      using "1.IH" rest "1.prems"(2) by blast
    ultimately show ?thesis using True hx hostOK_facts by blast
  next
    case False
    have ok: "x = CHR ''+'' \<or> \<not> (of_char x < (128::nat) \<and> shouldEscape x encodeHost)"
      using "1.prems"(1,2) False s by (auto split: if_splits)
    have rest: "unescapeCheck t mode = None"
      using "1.prems"(1) False s by (auto split: if_splits)
    have "c = x \<or> c \<in> set t" using "1.prems"(3) s by auto
    moreover have "length t < length s" using s by simp
    then have "c \<in> set t \<Longrightarrow> hostOK c"
      using "1.IH" rest "1.prems"(2) by blast
    moreover have "hostOK x" using ok hostOK_facts by blast
    ultimately show ?thesis by blast
  qed
qed

lemma unescape_hostOK:
  assumes "unescape s mode = Inr r" and "mode = encodeHost \<or> mode = encodeZone" and "c \<in> set s"
  shows "hostOK c"
proof -
  have "unescapeCheck s mode = None"
    using assms(1) by (simp add: unescape_def split: option.splits)
  then show ?thesis using assms(2,3) by (rule unescapeCheck_hostOK)
qed

lemma parseHost_hostOK:
  assumes "parseHost h = Inr r" and "c \<in> set h"
  shows "hostOK c"
proof (cases "HasPrefix h ''['' \<and> 0 \<le> LastIndex h CHR '']''
              \<and> 0 \<le> Index (take (nat (LastIndex h CHR '']'')) h) ''%25''")
  case False
  then have "unescape h encodeHost = Inr r"
    using assms(1) by (auto simp: parseHost_def Let_def split: if_splits)
  then show ?thesis using assms(2) unescape_hostOK by blast
next
  case True
  define i where "i = nat (LastIndex h CHR '']'')"
  define z where "z = nat (Index (take i h) ''%25'')"
  obtain r1 r2 r3 where
    u: "unescape (take z h) encodeHost = Inr r1"
       "unescape (drop z (take i h)) encodeZone = Inr r2"
       "unescape (drop i h) encodeHost = Inr r3"
    using assms(1) True
    by (auto simp: parseHost_def Let_def i_def z_def split: if_splits sum.splits)
  have "h = take i h @ drop i h" by simp
  moreover have "take i h = take z (take i h) @ drop z (take i h)"
    by (rule append_take_drop_id[symmetric])
  ultimately have "c \<in> set (take z (take i h)) \<or> c \<in> set (drop z (take i h)) \<or> c \<in> set (drop i h)"
    using assms(2) by (metis Un_iff set_append)
  moreover have "set (take z (take i h)) \<subseteq> set (take z h)"
    by (simp add: take_take set_take_subset_set_take)
  ultimately have "c \<in> set (take z h) \<or> c \<in> set (drop z (take i h)) \<or> c \<in> set (drop i h)"
    by blast
  then show ?thesis using u unescape_hostOK by blast
qed

lemma parseAuthority_host:
  assumes "parseAuthority h = Inr (None, r)"
  shows "parseHost h = Inr r"
  using assms by (auto simp: parseAuthority_def Let_def split: if_splits sum.splits)

lemma authority_bytes:
  assumes "parseAuthority h = Inr (None, r)"
  shows "CHR ''#'' \<notin> set h" "CHR ''?'' \<notin> set h" "CHR ''/'' \<notin> set h"
        "\<not> stringContainsCTLByte h"
proof -
  have ok: "c \<in> set h \<Longrightarrow> hostOK c" for c
    using parseHost_hostOK[OF parseAuthority_host[OF assms]] by blast
  have n: "\<not> hostOK CHR ''#''" "\<not> hostOK CHR ''?''" "\<not> hostOK CHR ''/''" by code_simp+
  show "CHR ''#'' \<notin> set h" using ok n by blast
  show "CHR ''?'' \<notin> set h" using ok n by blast
  show "CHR ''/'' \<notin> set h" using ok n by blast
  show "\<not> stringContainsCTLByte h"
    using ok by (auto simp: stringContainsCTLByte_def hostOK_def)
qed

lemma setPath_Nil: "setPath u [] = Inr (u\<lparr>Path := [], RawPath := []\<rparr>)"
  by (simp add: setPath_def unescape_def escape_def)

lemma CTL_https: "\<not> stringContainsCTLByte ''https://''"
  by code_simp

lemma parse_https_host:
  assumes "parseAuthority h = Inr (None, h)"
  shows "url_Parse (''https://'' @ h) =
           Inr \<lparr>Scheme = ''https'', Opaque = [], User = None, Host = h, Path = [], RawPath = [],
                OmitHost = False, ForceQuery = False, RawQuery = [], Fragment = [],
                RawFragment = []\<rparr>"
proof -
  let ?T = "''https://'' @ h"
  have nh: "CHR ''#'' \<notin> set h" "CHR ''?'' \<notin> set h" "CHR ''/'' \<notin> set h"
    using authority_bytes[OF assms] by simp_all
  have cut: "Cut ?T CHR ''#'' = (?T, [], False)"
    using nh by (intro Cut_notin) simp
  have ctl: "\<not> stringContainsCTLByte ?T"
    using CTL_https authority_bytes(4)[OF assms] by (simp only: CTL_append) simp
  have sch: "getScheme ?T = Inr (''https'', ''//'' @ h)"
    using getScheme_https[of "''//'' @ h"] by simp
  have suf: "\<not> HasSuffix (''//'' @ h) ''?''"
    using nh HasSuffix_byte[of "''//'' @ h" "CHR ''?''"] by auto
  have cutq: "Cut (''//'' @ h) CHR ''?'' = (''//'' @ h, [], False)"
    using nh by (intro Cut_notin) simp
  have idx: "Index h ''/'' = - 1"
    using nh by (simp add: Index_notin)
  have p: "parse ?T = Inr \<lparr>Scheme = ''https'', Opaque = [], User = None, Host = h, Path = [], RawPath = [],
                OmitHost = False, ForceQuery = False, RawQuery = [], Fragment = [],
                RawFragment = []\<rparr>"
    unfolding parse_def
    apply (simp only: ctl sch suf cutq if_False sum.case prod.case Let_def ToLower_https fst_conv snd_conv simp_thms)
    apply (simp add: HasPrefix_def emptyURL_def idx assms setPath_Nil)
    done
  show ?thesis
    unfolding url_Parse_def by (simp only: cut prod.case p) simp
qed


lemma parse_https_full:
  assumes h: "parseAuthority h = Inr (None, h)"
      and P: "P = CHR ''/'' # P'" "\<not> stringContainsCTLByte P" "CHR ''#'' \<notin> set P"
             "CHR ''?'' \<notin> set P" "unescape P encodePath = Inr P" "escape P encodePath = P"
      and Q: "Q \<noteq> []" "\<not> stringContainsCTLByte Q" "CHR ''#'' \<notin> set Q" "CHR ''?'' \<notin> set Q"
  shows "url_Parse (''https://'' @ h @ P @ ''?'' @ Q) =
           Inr \<lparr>Scheme = ''https'', Opaque = [], User = None, Host = h, Path = P, RawPath = [],
                OmitHost = False, ForceQuery = False, RawQuery = Q, Fragment = [],
                RawFragment = []\<rparr>"
proof -
  let ?T = "''https://'' @ h @ P @ ''?'' @ Q"
  let ?R = "''//'' @ h @ P @ ''?'' @ Q"
  have nh: "CHR ''#'' \<notin> set h" "CHR ''?'' \<notin> set h" "CHR ''/'' \<notin> set h"
    using authority_bytes[OF h] by simp_all
  have cut: "Cut ?T CHR ''#'' = (?T, [], False)"
    using nh P(3) Q(3) by (intro Cut_notin) simp
  have ctlq: "\<not> stringContainsCTLByte ''?''" by code_simp
  have ctl: "\<not> stringContainsCTLByte ?T"
    using CTL_https authority_bytes(4)[OF h] P(2) Q(2) ctlq by (simp only: CTL_append) simp
  have sch: "getScheme ?T = Inr (''https'', ?R)"
    using getScheme_https[of ?R] by simp
  have "last ?R = last Q" using Q(1) by simp
  moreover have "last Q \<noteq> CHR ''?''" using Q(1,4) last_in_set by metis
  ultimately have suf: "\<not> HasSuffix ?R ''?''"
    by (simp only: HasSuffix_byte_iff) simp
  have "CHR ''?'' \<notin> set (''//'' @ h @ P)" using nh P(4) by simp
  then have "Cut ((''//'' @ h @ P) @ CHR ''?'' # Q) CHR ''?'' = (''//'' @ h @ P, Q, True)"
    by (rule Cut_append)
  then have cutq: "Cut ?R CHR ''?'' = (''//'' @ h @ P, Q, True)" by simp
  have "Index (h @ CHR ''/'' # P') ''/'' = int (length h)"
    using nh by (intro Index_append) simp
  then have idx: "Index (h @ P) ''/'' = int (length h)" using P(1) by simp
  have sp: "setPath u P = Inr (u\<lparr>Path := P, RawPath := []\<rparr>)" for u
    by (simp add: setPath_def P(5,6))
  have p: "parse ?T = Inr \<lparr>Scheme = ''https'', Opaque = [], User = None, Host = h, Path = P, RawPath = [],
                OmitHost = False, ForceQuery = False, RawQuery = Q, Fragment = [],
                RawFragment = []\<rparr>"
    unfolding parse_def
    apply (simp only: ctl sch suf cutq if_False sum.case prod.case Let_def ToLower_https fst_conv snd_conv simp_thms)
    apply (simp add: HasPrefix_def emptyURL_def idx h sp)
    done
  show ?thesis
    unfolding url_Parse_def by (simp only: cut prod.case p) simp
qed


lemma ResolveReference_relative:
  assumes R: "R \<noteq> []" "R \<noteq> ''*''" "escape R encodePath = R" "resolvePath [] R = P"
      and P: "unescape P encodePath = Inr P" "escape P encodePath = P"
  shows "ResolveReference
           \<lparr>Scheme = ''https'', Opaque = [], User = None, Host = h, Path = [], RawPath = [],
            OmitHost = False, ForceQuery = False, RawQuery = [], Fragment = [], RawFragment = []\<rparr>
           \<lparr>Scheme = [], Opaque = [], User = None, Host = [], Path = R, RawPath = [],
            OmitHost = False, ForceQuery = False, RawQuery = [], Fragment = [], RawFragment = []\<rparr>
         = \<lparr>Scheme = ''https'', Opaque = [], User = None, Host = h, Path = P, RawPath = [],
            OmitHost = False, ForceQuery = False, RawQuery = [], Fragment = [], RawFragment = []\<rparr>"
proof -
  have e: "escape [] encodePath = []" by (simp add: escape_def)
  show ?thesis
    using R(1,2)
    by (simp add: ResolveReference_def EscapedPath_def setPathIgnoringError_def setPath_def
          R(3,4) P e Let_def)
qed

lemma URL_Query_empty: "RawQuery u = [] \<Longrightarrow> URL_Query u = []"
  by (simp add: URL_Query_def)

lemma URL_String_https:
  assumes "P = CHR ''/'' # P'" "escape P encodePath = P" "Q \<noteq> []" "escape h encodeHost = h"
  shows "URL_String
           \<lparr>Scheme = ''https'', Opaque = [], User = None, Host = h, Path = P, RawPath = [],
            OmitHost = False, ForceQuery = False, RawQuery = Q, Fragment = [], RawFragment = []\<rparr>
         = ''https://'' @ h @ P @ ''?'' @ Q"
proof -
  have ep: "EscapedPath \<lparr>Scheme = ''https'', Opaque = [], User = None, Host = h, Path = P, RawPath = [],
            OmitHost = False, ForceQuery = False, RawQuery = Q, Fragment = [], RawFragment = []\<rparr> = P"
    using assms(1,2) by (auto simp: EscapedPath_def)
  show ?thesis
    unfolding URL_String_def Let_def ep
    using assms(1,3) by (simp add: assms(4))
qed

lemma api_paths:
  "url_Parse ''api/v1/label/__name__/values'' =
     Inr \<lparr>Scheme = [], Opaque = [], User = None, Host = [], Path = ''api/v1/label/__name__/values'',
          RawPath = [], OmitHost = False, ForceQuery = False, RawQuery = [], Fragment = [],
          RawFragment = []\<rparr>"
  "url_Parse ''api/v1/query_range'' =
     Inr \<lparr>Scheme = [], Opaque = [], User = None, Host = [], Path = ''api/v1/query_range'',
          RawPath = [], OmitHost = False, ForceQuery = False, RawQuery = [], Fragment = [],
          RawFragment = []\<rparr>"
  by code_simp+

lemma label_path_facts:
  "escape ''api/v1/label/__name__/values'' encodePath = ''api/v1/label/__name__/values''"
  "resolvePath [] ''api/v1/label/__name__/values'' = ''/api/v1/label/__name__/values''"
  "unescape ''/api/v1/label/__name__/values'' encodePath = Inr ''/api/v1/label/__name__/values''"
  "escape ''/api/v1/label/__name__/values'' encodePath = ''/api/v1/label/__name__/values''"
  "\<not> stringContainsCTLByte ''/api/v1/label/__name__/values''"
  by code_simp+

lemma range_path_facts:
  "escape ''api/v1/query_range'' encodePath = ''api/v1/query_range''"
  "resolvePath [] ''api/v1/query_range'' = ''/api/v1/query_range''"
  "unescape ''/api/v1/query_range'' encodePath = Inr ''/api/v1/query_range''"
  "escape ''/api/v1/query_range'' encodePath = ''/api/v1/query_range''"
  "\<not> stringContainsCTLByte ''/api/v1/query_range''"
  by code_simp+


subsection \<open>Decimal numbers\<close>

lemma digit_table:
  "digit 0 = CHR ''0''" "digit (Suc 0) = CHR ''1''" "digit 2 = CHR ''2''" "digit 3 = CHR ''3''"
  "digit 4 = CHR ''4''" "digit 5 = CHR ''5''" "digit 6 = CHR ''6''" "digit 7 = CHR ''7''"
  "digit 8 = CHR ''8''" "digit 9 = CHR ''9''"
  by code_simp+

lemma unreserved_digits:
  "unreserved CHR ''0''" "unreserved CHR ''1''" "unreserved CHR ''2''" "unreserved CHR ''3''"
  "unreserved CHR ''4''" "unreserved CHR ''5''" "unreserved CHR ''6''" "unreserved CHR ''7''"
  "unreserved CHR ''8''" "unreserved CHR ''9''" "unreserved CHR ''-''"
  by code_simp+

lemma digit_unreserved:
  assumes "d < 10"
  shows "unreserved (digit d)"
proof -
  have "d = 0 \<or> d = 1 \<or> d = 2 \<or> d = 3 \<or> d = 4 \<or> d = 5 \<or> d = 6 \<or> d = 7 \<or> d = 8 \<or> d = 9"
    using assms by arith
  then show ?thesis
    by (elim disjE) (simp_all add: digit_table unreserved_digits)
qed

lemma utoa_unreserved: "list_all unreserved (utoa n)"
proof (induction n rule: utoa.induct)
  case (1 n)
  show ?case
  proof (cases "n < 10")
    case True
    then show ?thesis by (subst utoa.simps) (simp add: digit_unreserved)
  next
    case False
    then have "list_all unreserved (utoa (n div 10))" using 1 by simp
    moreover have "unreserved (digit (n mod 10))" by (rule digit_unreserved) simp
    ultimately show ?thesis using False by (subst utoa.simps) simp
  qed
qed

lemma utoa_nonempty: "utoa n \<noteq> []"
  by (subst utoa.simps) simp

lemma itoa_unreserved: "list_all unreserved (itoa i)"
  by (simp add: itoa_def utoa_unreserved unreserved_digits)

lemma itoa_nonempty: "itoa i \<noteq> []"
  by (simp add: itoa_def utoa_nonempty)

subsection \<open>Query strings\<close>

lemma upperhex_facts:
  "\<forall>n \<in> set [0..<16]. unreserved (upperhex n) \<and> ishex (upperhex n) \<and> unhex (upperhex n) = n"
  by code_simp

lemma upperhex_nibble:
  assumes "n < 16"
  shows "unreserved (upperhex n)" "ishex (upperhex n)" "unhex (upperhex n) = n"
  using assms upperhex_facts by auto

lemma QC_plain: "\<forall>c. \<not> shouldEscape c encodeQueryComponent \<longrightarrow> unreserved c"
  by code_simp

lemma of_char_nibbles:
  "of_char c div 16 < (16::nat)" "of_char c mod 16 < (16::nat)"
proof -
  have "of_char c < (256::nat)" by simp
  then show "of_char c div 16 < (16::nat)" by presburger
  show "of_char c mod 16 < (16::nat)" by simp
qed

lemma escapeByte_cases:
  obtains (space) "c = CHR '' ''" "escapeByte encodeQueryComponent c = ''+''"
  | (hex) "escapeByte encodeQueryComponent c
             = [CHR ''%'', upperhex (of_char c div 16), upperhex (of_char c mod 16)]"
  | (plain) "unreserved c" "escapeByte encodeQueryComponent c = [c]"
proof (cases "c = CHR '' ''")
  case True
  then show ?thesis using space by (simp add: escapeByte_def)
next
  case False
  show ?thesis
  proof (cases "shouldEscape c encodeQueryComponent")
    case True
    then show ?thesis using hex False by (simp add: escapeByte_def)
  next
    case ne: False
    then have "unreserved c" using QC_plain by blast
    then show ?thesis using plain False ne by (simp add: escapeByte_def)
  qed
qed

lemma escaped_escapeByte: "escaped (escapeByte encodeQueryComponent c)"
  by (cases c rule: escapeByte_cases)
     (simp_all add: escaped_def upperhex_nibble(1) of_char_nibbles)

lemma escaped_append: "escaped (a @ b) = (escaped a \<and> escaped b)"
  by (simp add: escaped_def)

lemma escaped_QueryEscape: "escaped (QueryEscape s)"
proof (induction s)
  case Nil
  show ?case by (simp add: escaped_def QueryEscape_def escape_def)
next
  case (Cons c s)
  have "QueryEscape (c # s) = escapeByte encodeQueryComponent c @ QueryEscape s"
    by (simp add: QueryEscape_def escape_def)
  then show ?case
    using Cons escaped_escapeByte by (simp add: escaped_append)
qed

lemma escaped_byte_facts:
  "\<forall>c. unreserved c \<or> c = CHR ''%'' \<or> c = CHR ''+'' \<longrightarrow>
       \<not> (c < CHR '' '' \<or> c = CHR 0x7F) \<and> c \<notin> set ''#?&=;''"
  by code_simp

lemma escaped_byte:
  assumes "escaped s" and "c \<in> set s"
  shows "\<not> (c < CHR '' '' \<or> c = CHR 0x7F) \<and> c \<notin> set ''#?&=;''"
proof -
  have "unreserved c \<or> c = CHR ''%'' \<or> c = CHR ''+''"
    using assms by (simp add: escaped_def list_all_iff)
  then show ?thesis
    using spec[OF escaped_byte_facts, of c] by (rule rev_mp)
qed

lemma escaped_notin:
  assumes "escaped s" and "c \<in> set ''#?&=;''"
  shows "c \<notin> set s"
  using escaped_byte[OF assms(1)] assms(2) by blast

lemma escaped_CTL: "escaped s \<Longrightarrow> \<not> stringContainsCTLByte s"
  using escaped_byte unfolding stringContainsCTLByte_def by blast

lemma escaped_unreserved: "list_all unreserved s \<Longrightarrow> escaped s"
  by (simp add: escaped_def list_all_iff)

lemma unescapeBytes_Cons:
  "c \<noteq> CHR ''%'' \<Longrightarrow>
     unescapeBytes (c # t) mode
       = (if c = CHR ''+'' \<and> mode = encodeQueryComponent then CHR '' '' else c) # unescapeBytes t mode"
proof (cases t)
  case Nil
  then show ?thesis by simp
next
  case (Cons a t')
  assume c: "c \<noteq> CHR ''%''"
  show ?thesis
  proof (cases t')
    case Nil
    then show ?thesis using Cons c by simp
  next
    case (Cons b t'')
    then show ?thesis using \<open>t = a # t'\<close> c by simp
  qed
qed

lemma unreserved_not_special: "unreserved c \<Longrightarrow> c \<noteq> CHR ''%'' \<and> c \<noteq> CHR ''+''"
  using spec[OF unreserved_facts, of c] by simp

lemma escapeByte_unescape:
  "unescapeCheck (escapeByte encodeQueryComponent c @ t) encodeQueryComponent
     = unescapeCheck t encodeQueryComponent"
  "unescapeBytes (escapeByte encodeQueryComponent c @ t) encodeQueryComponent
     = c # unescapeBytes t encodeQueryComponent"
proof -
  have n: "16 * (of_char c div 16) + of_char c mod 16 = (of_char c :: nat)" by simp
  show "unescapeCheck (escapeByte encodeQueryComponent c @ t) encodeQueryComponent
     = unescapeCheck t encodeQueryComponent"
  proof (cases c rule: escapeByte_cases)
    case space
    then show ?thesis by simp
  next
    case hex
    then show ?thesis by (simp add: upperhex_nibble(2) of_char_nibbles)
  next
    case plain
    then show ?thesis using unreserved_not_special[of c] by simp
  qed
  show "unescapeBytes (escapeByte encodeQueryComponent c @ t) encodeQueryComponent
     = c # unescapeBytes t encodeQueryComponent"
  proof (cases c rule: escapeByte_cases)
    case space
    then show ?thesis by (simp add: unescapeBytes_Cons)
  next
    case hex
    then show ?thesis by (simp add: upperhex_nibble(3) of_char_nibbles n)
  next
    case plain
    then show ?thesis using unreserved_not_special[of c] by (simp add: unescapeBytes_Cons)
  qed
qed

lemma QueryUnescape_QueryEscape: "QueryUnescape (QueryEscape s) = Inr s"
proof -
  have "unescapeCheck (escape s encodeQueryComponent) encodeQueryComponent = None
        \<and> unescapeBytes (escape s encodeQueryComponent) encodeQueryComponent = s"
  proof (induction s)
    case Nil
    show ?case by (simp add: escape_def)
  next
    case (Cons c s)
    have "escape (c # s) encodeQueryComponent
            = escapeByte encodeQueryComponent c @ escape s encodeQueryComponent"
      by (simp add: escape_def)
    then show ?case using Cons by (simp add: escapeByte_unescape)
  qed
  then show ?thesis by (simp add: QueryUnescape_def QueryEscape_def unescape_def)
qed

subsection \<open>The query of a request\<close>

lemma sorted_keys:
  "sort [''start'', ''end'', ''match[]''] = [''end'', ''match[]'', ''start'']"
  "sort [''query'', ''start'', ''end'', ''step''] = [''end'', ''query'', ''start'', ''step'']"
  by code_simp+

lemma escaped_keys:
  "QueryEscape ''end'' = ''end''" "QueryEscape ''start'' = ''start''"
  "QueryEscape ''query'' = ''query''" "QueryEscape ''step'' = ''step''"
  "QueryEscape ''60s'' = ''60s''" "QueryEscape ''match[]'' = ''match%5B%5D''"
  by code_simp+

lemma escaped_selector:
  "QueryEscape selector =
     ''%7B__name__%3D~%22%28ceph%7CCeph%7Cnoobaa%7CNooBaa%7Cocs%7Codf%29.%2B%22%7D''"
  by code_simp

lemma Values_Set_label:
  "Values_Set (Values_Set (Values_Set [] ''start'' a) ''end'' b) ''match[]'' c
     = [(''start'', [a]), (''end'', [b]), (''match[]'', [c])]"
  by (simp add: Values_Set_def)

lemma Values_Set_range:
  "Values_Set (Values_Set (Values_Set (Values_Set [] ''query'' q) ''start'' a) ''end'' b) ''step'' c
     = [(''query'', [q]), (''start'', [a]), (''end'', [b]), (''step'', [c])]"
  by (simp add: Values_Set_def)

lemma Values_Encode_label:
  "Values_Encode [(''start'', [a]), (''end'', [b]), (''match[]'', [c])]
     = (QueryEscape ''end'' @ ''='' @ QueryEscape b) @ ''&''
       @ (QueryEscape ''match[]'' @ ''='' @ QueryEscape c) @ ''&''
       @ (QueryEscape ''start'' @ ''='' @ QueryEscape a)"
  by (simp add: Values_Encode_def sorted_keys)

lemma Values_Encode_range:
  "Values_Encode [(''query'', [q]), (''start'', [a]), (''end'', [b]), (''step'', [c])]
     = (QueryEscape ''end'' @ ''='' @ QueryEscape b) @ ''&''
       @ (QueryEscape ''query'' @ ''='' @ QueryEscape q) @ ''&''
       @ (QueryEscape ''start'' @ ''='' @ QueryEscape a) @ ''&''
       @ (QueryEscape ''step'' @ ''='' @ QueryEscape c)"
  by (simp add: Values_Encode_def sorted_keys)

lemma parseQueryPieces_escaped:
  "parseQueryPieces ((QueryEscape k @ CHR ''='' # QueryEscape v) # rest) m
     = parseQueryPieces rest
         (AList.update k ((case map_of m k of None \<Rightarrow> [] | Some vs \<Rightarrow> vs) @ [v]) m)"
proof -
  let ?p = "QueryEscape k @ CHR ''='' # QueryEscape v"
  have k: "CHR ''='' \<notin> set (QueryEscape k)" "CHR '';'' \<notin> set (QueryEscape k)"
    using escaped_notin[OF escaped_QueryEscape] by simp_all
  have v: "CHR '';'' \<notin> set (QueryEscape v)"
    using escaped_notin[OF escaped_QueryEscape] by simp
  have 1: "\<not> Contains ?p CHR '';''" using k v by (simp add: Contains_def)
  have 2: "?p \<noteq> []" by simp
  have "Cut (QueryEscape k @ CHR ''='' # QueryEscape v) CHR ''='' = (QueryEscape k, QueryEscape v, True)"
    using k(1) by (rule Cut_append)
  then have 3: "Cut ?p CHR ''='' = (QueryEscape k, QueryEscape v, True)" .
  show ?thesis
    by (subst parseQueryPieces.simps) (simp only: 1 2 3 QueryUnescape_QueryEscape if_False simp_thms prod.case sum.case)
qed

lemma piece_no_amp: "CHR ''&'' \<notin> set (QueryEscape k @ CHR ''='' # QueryEscape v)"
  using escaped_notin[OF escaped_QueryEscape, of "CHR ''&''"] by simp

lemma splitBytes_three:
  assumes "c \<notin> set p1" "c \<notin> set p2" "c \<notin> set p3"
  shows "splitBytes c (p1 @ [c] @ p2 @ [c] @ p3) = [p1, p2, p3]"
proof -
  have "splitBytes c (p1 @ c # (p2 @ c # p3)) = p1 # splitBytes c (p2 @ c # p3)"
    using assms(1) by (rule splitBytes_append)
  also have "splitBytes c (p2 @ c # p3) = p2 # splitBytes c p3"
    using assms(2) by (rule splitBytes_append)
  also have "splitBytes c p3 = [p3]"
    using assms(3) by (rule splitBytes_notin)
  finally show ?thesis by simp
qed

lemma splitBytes_four:
  assumes "c \<notin> set p1" "c \<notin> set p2" "c \<notin> set p3" "c \<notin> set p4"
  shows "splitBytes c (p1 @ [c] @ p2 @ [c] @ p3 @ [c] @ p4) = [p1, p2, p3, p4]"
proof -
  have "splitBytes c (p1 @ c # (p2 @ [c] @ p3 @ [c] @ p4)) = p1 # splitBytes c (p2 @ [c] @ p3 @ [c] @ p4)"
    using assms(1) by (rule splitBytes_append)
  then show ?thesis
    using splitBytes_three[OF assms(2,3,4)] by simp
qed

lemma URL_Query_label:
  assumes "RawQuery u = (QueryEscape k1 @ ''='' @ QueryEscape v1) @ ''&''
       @ (QueryEscape k2 @ ''='' @ QueryEscape v2) @ ''&''
       @ (QueryEscape k3 @ ''='' @ QueryEscape v3)"
    and "k1 \<noteq> k2" "k1 \<noteq> k3" "k2 \<noteq> k3"
  shows "URL_Query u = [(k1, [v1]), (k2, [v2]), (k3, [v3])]"
proof -
  have "splitBytes CHR ''&'' (RawQuery u)
          = [QueryEscape k1 @ CHR ''='' # QueryEscape v1, QueryEscape k2 @ CHR ''='' # QueryEscape v2,
             QueryEscape k3 @ CHR ''='' # QueryEscape v3]"
    unfolding assms(1) using splitBytes_three[OF piece_no_amp piece_no_amp piece_no_amp] by simp
  then show ?thesis
    unfolding URL_Query_def using assms(2-)
    by (simp add: parseQueryPieces_escaped del: parseQueryPieces.simps(2))
qed

lemma URL_Query_range:
  assumes "RawQuery u = (QueryEscape k1 @ ''='' @ QueryEscape v1) @ ''&''
       @ (QueryEscape k2 @ ''='' @ QueryEscape v2) @ ''&''
       @ (QueryEscape k3 @ ''='' @ QueryEscape v3) @ ''&''
       @ (QueryEscape k4 @ ''='' @ QueryEscape v4)"
    and "distinct [k1, k2, k3, k4]"
  shows "URL_Query u = [(k1, [v1]), (k2, [v2]), (k3, [v3]), (k4, [v4])]"
proof -
  have "splitBytes CHR ''&'' (RawQuery u)
          = [QueryEscape k1 @ CHR ''='' # QueryEscape v1, QueryEscape k2 @ CHR ''='' # QueryEscape v2,
             QueryEscape k3 @ CHR ''='' # QueryEscape v3, QueryEscape k4 @ CHR ''='' # QueryEscape v4]"
    unfolding assms(1)
    using splitBytes_four[OF piece_no_amp piece_no_amp piece_no_amp piece_no_amp] by simp
  then show ?thesis
    unfolding URL_Query_def using assms(2)
    by (auto simp add: parseQueryPieces_escaped simp del: parseQueryPieces.simps(2))
qed


lemma QueryEscape_itoa: "QueryEscape (itoa i) = itoa i"
  using itoa_unreserved by (rule escape_unreserved_query)

lemma getMetricList_url_host:
  assumes "parseAuthority h = Inr (None, h)" and "escape h encodeHost = h"
  shows "getMetricList_url h now1 now2 =
           Inr (''https://'' @ h @ ''/api/v1/label/__name__/values'' @ ''?''
                @ ((QueryEscape ''end'' @ CHR ''='' # QueryEscape (itoa now2)) @ ''&''
                   @ (QueryEscape ''match[]'' @ CHR ''='' # QueryEscape selector) @ ''&''
                   @ (QueryEscape ''start'' @ CHR ''='' # QueryEscape (itoa (now1 - 3600)))))"
proof -
  let ?Q = "(QueryEscape ''end'' @ CHR ''='' # QueryEscape (itoa now2)) @ ''&''
                   @ (QueryEscape ''match[]'' @ CHR ''='' # QueryEscape selector) @ ''&''
                   @ (QueryEscape ''start'' @ CHR ''='' # QueryEscape (itoa (now1 - 3600)))"
  have rr: "ResolveReference
           \<lparr>Scheme = ''https'', Opaque = [], User = None, Host = h, Path = [], RawPath = [],
            OmitHost = False, ForceQuery = False, RawQuery = [], Fragment = [], RawFragment = []\<rparr>
           \<lparr>Scheme = [], Opaque = [], User = None, Host = [], Path = ''api/v1/label/__name__/values'',
            RawPath = [], OmitHost = False, ForceQuery = False, RawQuery = [], Fragment = [],
            RawFragment = []\<rparr>
         = \<lparr>Scheme = ''https'', Opaque = [], User = None, Host = h,
            Path = ''/api/v1/label/__name__/values'', RawPath = [],
            OmitHost = False, ForceQuery = False, RawQuery = [], Fragment = [], RawFragment = []\<rparr>"
    by (rule ResolveReference_relative) (simp_all add: label_path_facts)
  have enc: "Values_Encode
               (Values_Set (Values_Set (Values_Set [] ''start'' (itoa (now1 - 3600))) ''end'' (itoa now2))
                  ''match[]'' selector) = ?Q"
    by (simp only: Values_Set_label Values_Encode_label) simp
  have str: "URL_String
           \<lparr>Scheme = ''https'', Opaque = [], User = None, Host = h,
            Path = ''/api/v1/label/__name__/values'', RawPath = [],
            OmitHost = False, ForceQuery = False, RawQuery = ?Q, Fragment = [], RawFragment = []\<rparr>
         = ''https://'' @ h @ ''/api/v1/label/__name__/values'' @ ''?'' @ ?Q"
    by (rule URL_String_https[where P' = "''api/v1/label/__name__/values''"])
       (simp_all add: label_path_facts assms(2))
  show ?thesis
    unfolding getMetricList_url_def
    by (simp only: parse_https_host[OF assms(1)] api_paths sum.case Let_def rr URL_Query_empty
          URL.simps enc str)
qed


lemma getRangeQueryUrl_host:
  assumes "parseAuthority h = Inr (None, h)" and "escape h encodeHost = h"
  shows "getRangeQueryUrl h metric now1 now2 =
           (''https://'' @ h @ ''/api/v1/query_range'' @ ''?''
                @ ((QueryEscape ''end'' @ CHR ''='' # QueryEscape (itoa now2)) @ ''&''
                   @ (QueryEscape ''query'' @ CHR ''='' # QueryEscape metric) @ ''&''
                   @ (QueryEscape ''start'' @ CHR ''='' # QueryEscape (itoa (now1 - 3600))) @ ''&''
                   @ (QueryEscape ''step'' @ CHR ''='' # QueryEscape ''60s'')), None)"
proof -
  let ?Q = "(QueryEscape ''end'' @ CHR ''='' # QueryEscape (itoa now2)) @ ''&''
                   @ (QueryEscape ''query'' @ CHR ''='' # QueryEscape metric) @ ''&''
                   @ (QueryEscape ''start'' @ CHR ''='' # QueryEscape (itoa (now1 - 3600))) @ ''&''
                   @ (QueryEscape ''step'' @ CHR ''='' # QueryEscape ''60s'')"
  have rr: "ResolveReference
           \<lparr>Scheme = ''https'', Opaque = [], User = None, Host = h, Path = [], RawPath = [],
            OmitHost = False, ForceQuery = False, RawQuery = [], Fragment = [], RawFragment = []\<rparr>
           \<lparr>Scheme = [], Opaque = [], User = None, Host = [], Path = ''api/v1/query_range'',
            RawPath = [], OmitHost = False, ForceQuery = False, RawQuery = [], Fragment = [],
            RawFragment = []\<rparr>
         = \<lparr>Scheme = ''https'', Opaque = [], User = None, Host = h,
            Path = ''/api/v1/query_range'', RawPath = [],
            OmitHost = False, ForceQuery = False, RawQuery = [], Fragment = [], RawFragment = []\<rparr>"
    by (rule ResolveReference_relative) (simp_all add: range_path_facts)
  have enc: "Values_Encode
               (Values_Set (Values_Set (Values_Set (Values_Set [] ''query'' metric)
                  ''start'' (itoa (now1 - 3600))) ''end'' (itoa now2)) ''step'' ''60s'') = ?Q"
    by (simp only: Values_Set_range Values_Encode_range) simp
  have str: "URL_String
           \<lparr>Scheme = ''https'', Opaque = [], User = None, Host = h,
            Path = ''/api/v1/query_range'', RawPath = [],
            OmitHost = False, ForceQuery = False, RawQuery = ?Q, Fragment = [], RawFragment = []\<rparr>
         = ''https://'' @ h @ ''/api/v1/query_range'' @ ''?'' @ ?Q"
    by (rule URL_String_https[where P' = "''api/v1/query_range''"])
       (simp_all add: range_path_facts assms(2))
  show ?thesis
    unfolding getRangeQueryUrl_def
    by (simp only: parse_https_host[OF assms(1)] api_paths sum.case Let_def rr URL_Query_empty
          URL.simps enc str)
qed

lemma CTL_Cons:
  "stringContainsCTLByte (c # s) = ((c < CHR '' '' \<or> c = CHR 0x7F) \<or> stringContainsCTLByte s)"
  by (auto simp: stringContainsCTLByte_def)

lemma separators_not_CTL:
  "\<not> (CHR ''='' < CHR '' '' \<or> CHR ''='' = CHR 0x7F)" "\<not> (CHR ''&'' < CHR '' '' \<or> CHR ''&'' = CHR 0x7F)"
  by code_simp+

lemma piece_facts:
  "\<not> stringContainsCTLByte (QueryEscape k @ CHR ''='' # QueryEscape v)"
  "CHR ''#'' \<notin> set (QueryEscape k @ CHR ''='' # QueryEscape v)"
  "CHR ''?'' \<notin> set (QueryEscape k @ CHR ''='' # QueryEscape v)"
proof -
  show "\<not> stringContainsCTLByte (QueryEscape k @ CHR ''='' # QueryEscape v)"
    by (simp only: CTL_append CTL_Cons separators_not_CTL escaped_CTL[OF escaped_QueryEscape]) simp
  show "CHR ''#'' \<notin> set (QueryEscape k @ CHR ''='' # QueryEscape v)"
    using escaped_notin[OF escaped_QueryEscape, of "CHR ''#''"] by simp
  show "CHR ''?'' \<notin> set (QueryEscape k @ CHR ''='' # QueryEscape v)"
    using escaped_notin[OF escaped_QueryEscape, of "CHR ''?''"] by simp
qed

lemma joined_facts:
  assumes "\<not> stringContainsCTLByte a" "CHR ''#'' \<notin> set a" "CHR ''?'' \<notin> set a"
      and "\<not> stringContainsCTLByte b" "CHR ''#'' \<notin> set b" "CHR ''?'' \<notin> set b"
  shows "\<not> stringContainsCTLByte (a @ ''&'' @ b)" "CHR ''#'' \<notin> set (a @ ''&'' @ b)"
        "CHR ''?'' \<notin> set (a @ ''&'' @ b)"
proof -
  show "\<not> stringContainsCTLByte (a @ ''&'' @ b)"
    using assms(1,4) by (simp add: CTL_append CTL_Cons separators_not_CTL)
  show "CHR ''#'' \<notin> set (a @ ''&'' @ b)" using assms(2,5) by simp
  show "CHR ''?'' \<notin> set (a @ ''&'' @ b)" using assms(3,6) by simp
qed

lemma label_url_parses:
  assumes "parseAuthority h = Inr (None, h)"
  shows "url_Parse (''https://'' @ h @ ''/api/v1/label/__name__/values'' @ ''?''
                @ ((QueryEscape ''end'' @ CHR ''='' # QueryEscape e) @ ''&''
                   @ (QueryEscape ''match[]'' @ CHR ''='' # QueryEscape m) @ ''&''
                   @ (QueryEscape ''start'' @ CHR ''='' # QueryEscape s)))
         = Inr \<lparr>Scheme = ''https'', Opaque = [], User = None, Host = h,
                Path = ''/api/v1/label/__name__/values'', RawPath = [],
                OmitHost = False, ForceQuery = False,
                RawQuery = (QueryEscape ''end'' @ CHR ''='' # QueryEscape e) @ ''&''
                   @ (QueryEscape ''match[]'' @ CHR ''='' # QueryEscape m) @ ''&''
                   @ (QueryEscape ''start'' @ CHR ''='' # QueryEscape s),
                Fragment = [], RawFragment = []\<rparr>"
proof (rule parse_https_full[OF assms, where P' = "''api/v1/label/__name__/values''"])
  let ?p3 = "QueryEscape ''start'' @ CHR ''='' # QueryEscape s"
  let ?p2 = "QueryEscape ''match[]'' @ CHR ''='' # QueryEscape m"
  let ?p1 = "QueryEscape ''end'' @ CHR ''='' # QueryEscape e"
  note j23 = joined_facts[OF piece_facts[of "''match[]''" m] piece_facts[of "''start''" s]]
  note j = joined_facts[OF piece_facts[of "''end''" e] j23]
  show "\<not> stringContainsCTLByte (?p1 @ ''&'' @ ?p2 @ ''&'' @ ?p3)" using j(1) by simp
  show "CHR ''#'' \<notin> set (?p1 @ ''&'' @ ?p2 @ ''&'' @ ?p3)" using j(2) by simp
  show "CHR ''?'' \<notin> set (?p1 @ ''&'' @ ?p2 @ ''&'' @ ?p3)" using j(3) by simp
  show "?p1 @ ''&'' @ ?p2 @ ''&'' @ ?p3 \<noteq> []" by simp
qed (simp_all add: label_path_facts)

lemma range_url_parses:
  assumes "parseAuthority h = Inr (None, h)"
  shows "url_Parse (''https://'' @ h @ ''/api/v1/query_range'' @ ''?''
                @ ((QueryEscape ''end'' @ CHR ''='' # QueryEscape e) @ ''&''
                   @ (QueryEscape ''query'' @ CHR ''='' # QueryEscape m) @ ''&''
                   @ (QueryEscape ''start'' @ CHR ''='' # QueryEscape s) @ ''&''
                   @ (QueryEscape ''step'' @ CHR ''='' # QueryEscape t)))
         = Inr \<lparr>Scheme = ''https'', Opaque = [], User = None, Host = h,
                Path = ''/api/v1/query_range'', RawPath = [],
                OmitHost = False, ForceQuery = False,
                RawQuery = (QueryEscape ''end'' @ CHR ''='' # QueryEscape e) @ ''&''
                   @ (QueryEscape ''query'' @ CHR ''='' # QueryEscape m) @ ''&''
                   @ (QueryEscape ''start'' @ CHR ''='' # QueryEscape s) @ ''&''
                   @ (QueryEscape ''step'' @ CHR ''='' # QueryEscape t),
                Fragment = [], RawFragment = []\<rparr>"
proof (rule parse_https_full[OF assms, where P' = "''api/v1/query_range''"])
  let ?p4 = "QueryEscape ''step'' @ CHR ''='' # QueryEscape t"
  let ?p3 = "QueryEscape ''start'' @ CHR ''='' # QueryEscape s"
  let ?p2 = "QueryEscape ''query'' @ CHR ''='' # QueryEscape m"
  let ?p1 = "QueryEscape ''end'' @ CHR ''='' # QueryEscape e"
  note j34 = joined_facts[OF piece_facts[of "''start''" s] piece_facts[of "''step''" t]]
  note j24 = joined_facts[OF piece_facts[of "''query''" m] j34]
  note j = joined_facts[OF piece_facts[of "''end''" e] j24]
  show "\<not> stringContainsCTLByte (?p1 @ ''&'' @ ?p2 @ ''&'' @ ?p3 @ ''&'' @ ?p4)" using j(1) by simp
  show "CHR ''#'' \<notin> set (?p1 @ ''&'' @ ?p2 @ ''&'' @ ?p3 @ ''&'' @ ?p4)" using j(2) by simp
  show "CHR ''?'' \<notin> set (?p1 @ ''&'' @ ?p2 @ ''&'' @ ?p3 @ ''&'' @ ?p4)" using j(3) by simp
  show "?p1 @ ''&'' @ ?p2 @ ''&'' @ ?p3 @ ''&'' @ ?p4 \<noteq> []" by simp
qed (simp_all add: range_path_facts)

lemma itoa_examples:
  "itoa 1700000000 = ''1700000000''" "itoa 1700000001 = ''1700000001''"
  "itoa 1699996400 = ''1699996400''"
  by (simp_all add: itoa_def utoa.simps digit_table)

subsection \<open>Host strings that are hosts\<close>

text \<open>
  The theorems on the request URLs are about the host strings that \<open>url.Parse\<close> reads
  as the host and nothing else: \<open>parseAuthority\<close> accepts the string, finds no user
  information in it and returns it unchanged, and \<open>URL.String\<close> prints it without
  escaping. A name or an IP address of unreserved characters with a port is such a
  string, and so is a bracketed IPv6 address with a port.
\<close>

lemma LastIndex_append: "c \<notin> set b \<Longrightarrow> LastIndex (a @ c # b) c = int (length a)"
proof -
  assume n: "c \<notin> set b"
  have "takeWhile (\<lambda>x. x \<noteq> c) (rev b @ c # rev a) = rev b"
    using n by (induction b rule: rev_induct) auto
  then show ?thesis by (simp add: LastIndex_def)
qed

lemma host_byte_facts:
  "\<forall>c. unreserved c \<or> c = CHR '':'' \<longrightarrow>
       \<not> shouldEscape c encodeHost \<and> c \<notin> set ''%+@[ ''"
  by code_simp

lemma unescapeCheck_host_plain:
  "\<forall>c \<in> set s. \<not> shouldEscape c encodeHost \<and> c \<noteq> CHR ''%'' \<Longrightarrow> unescapeCheck s encodeHost = None"
  by (induction s) auto

lemma parseAuthority_name_port:
  assumes "list_all unreserved n" and "list_all isDigit p"
  shows "parseAuthority (n @ CHR '':'' # p) = Inr (None, n @ CHR '':'' # p)
         \<and> escape (n @ CHR '':'' # p) encodeHost = n @ CHR '':'' # p"
proof -
  let ?h = "n @ CHR '':'' # p"
  have d: "\<forall>c. isDigit c \<longrightarrow> unreserved c \<and> c \<noteq> CHR '':''" by code_simp
  have dp: "unreserved c \<and> c \<noteq> CHR '':''" if "c \<in> set p" for c
  proof -
    have "isDigit c" using that assms(2) by (simp add: list_all_iff)
    then show ?thesis using spec[OF d, of c] by (rule rev_mp)
  qed
  have b: "unreserved c \<or> c = CHR '':''" if "c \<in> set ?h" for c
  proof -
    have "c \<in> set n \<or> c = CHR '':'' \<or> c \<in> set p" using that by auto
    moreover have "c \<in> set n \<Longrightarrow> unreserved c" using assms(1) by (simp add: list_all_iff)
    ultimately show ?thesis using dp by blast
  qed
  have f: "\<not> shouldEscape c encodeHost \<and> c \<notin> set ''%+@[ ''" if "c \<in> set ?h" for c
    using b[OF that] spec[OF host_byte_facts, of c] by (rule rev_mp)
  have ni: "c \<notin> set ?h" if "c \<in> set ''%+@[ ''" for c
    using f that by blast
  have at: "LastIndex ?h CHR ''@'' = - 1"
    by (rule LastIndex_notin, rule ni) simp
  have br: "\<not> HasPrefix ?h ''[''"
    using HasPrefix_byte[of ?h "CHR ''[''"] ni[of "CHR ''[''"] by auto
  have "CHR '':'' \<notin> set p" using dp by blast
  then have li: "LastIndex ?h CHR '':'' = int (length n)" by (rule LastIndex_append)
  have port: "validOptionalPort (CHR '':'' # p)" using assms(2) by (simp add: validOptionalPort_def)
  have "\<forall>c \<in> set ?h. \<not> shouldEscape c encodeHost \<and> c \<noteq> CHR ''%''"
    using f ni[of "CHR ''%''"] by auto
  then have chk: "unescapeCheck ?h encodeHost = None"
    by (rule unescapeCheck_host_plain)
  have byt: "unescapeBytes ?h encodeHost = ?h"
    by (rule unescapeBytes_plain; rule ni) simp_all
  have un: "unescape ?h encodeHost = Inr ?h" by (simp only: unescape_def chk byt option.case)
  have ph: "parseHost ?h = Inr ?h"
    unfolding parseHost_def by (simp only: br li if_False Let_def) (simp add: port un)
  have pa: "parseAuthority ?h = Inr (None, ?h)"
    unfolding parseAuthority_def by (simp only: at Let_def) (simp add: ph)
  have "\<forall>c \<in> set ?h. \<not> shouldEscape c encodeHost \<and> c \<noteq> CHR '' ''"
    using f ni[of "CHR '' ''"] by auto
  then have es: "escape ?h encodeHost = ?h"
    by (rule escape_plain)
  from pa es show ?thesis by simp
qed

lemma accepted_hosts:
  "parseAuthority ''example.com'' = Inr (None, ''example.com'')"
  "escape ''example.com'' encodeHost = ''example.com''"
  "parseAuthority ''127.0.0.1:9091'' = Inr (None, ''127.0.0.1:9091'')"
  "escape ''127.0.0.1:9091'' encodeHost = ''127.0.0.1:9091''"
  "parseAuthority ''[::1]:9090'' = Inr (None, ''[::1]:9090'')"
  "escape ''[::1]:9090'' encodeHost = ''[::1]:9090''"
  by code_simp+

lemma parseAuthority_name:
  assumes "list_all unreserved n"
  shows "parseAuthority n = Inr (None, n) \<and> escape n encodeHost = n"
  using parseAuthority_unreserved[OF assms] escape_unreserved_host[OF assms] by simp

subsection \<open>The catalog request (C3)\<close>

lemma getMetricList_request:
  assumes "getMetricList_url (host c) (clock w (ticks st)) (clock w (ticks st + 1)) = Inr url"
  shows "getMetricList w c st =
           (case HttpClient_Get w c url of
              Inl err \<Rightarrow>
                (([], Some err),
                 logf ''Error fetching the metric list: %v\<newline>'' (ErrArg err)
                   (st\<lparr>ticks := ticks st + 2\<rparr>))
            | Inr response \<Rightarrow>
                if StatusCode response \<noteq> 200 then
                  (([], None),
                   logf ''Metric list fetch not OK: HTTP status code %v\<newline>''
                     (StrArg (Status response)) (st\<lparr>ticks := ticks st + 2\<rparr>))
                else
                  (case json_Decode w (Body response) (BodyErr response) of
                     Inl err \<Rightarrow>
                       (([], Some err),
                        logf ''Error parsing the metric list result: %v\<newline>'' (ErrArg err)
                          (st\<lparr>ticks := ticks st + 2\<rparr>))
                   | Inr data \<Rightarrow> ((data, None), st\<lparr>ticks := ticks st + 2\<rparr>)))"
  unfolding getMetricList_def by (simp only: assms sum.case Let_def)

text \<open>
  C3 (as amended). For every host string that \<open>url.Parse\<close> reads as the host and nothing
  else (\<open>parseAuthority\<close> returns it unchanged, with no user information, and
  \<open>URL.String\<close> prints it unescaped: a host name or an IP address, with or without a
  port), \<open>getMetricList\<close> builds the URL \<open>https://<host>/api/v1/label/__name__/values\<close>
  with the query parameters \<open>end\<close>, \<open>match[]\<close> and \<open>start\<close>: parsed again, the URL has the
  scheme \<open>https\<close>, that host and that path, \<open>match[]\<close> is exactly the selector, \<open>start\<close> is
  the decimal text of the first clock reading minus 3600 and \<open>end\<close> the decimal text of
  the second clock reading. So \<open>end - start\<close> is 3600 plus the seconds between the two
  readings of the clock: 3600 when both readings fall in the same second.
\<close>

theorem getMetricList_url_target:
  assumes "parseAuthority h = Inr (None, h)" and "escape h encodeHost = h"
  shows "\<exists>url u tStart tEnd.
           getMetricList_url h now1 now2 = Inr url
         \<and> url = ''https://'' @ h @ ''/api/v1/label/__name__/values?end='' @ itoa tEnd
                 @ ''&match%5B%5D=%7B__name__%3D~%22%28ceph%7CCeph%7Cnoobaa%7CNooBaa%7Cocs%7Codf%29.%2B%22%7D''
                 @ ''&start='' @ itoa tStart
         \<and> url_Parse url = Inr u \<and> Scheme u = ''https'' \<and> Host u = h
         \<and> Path u = ''/api/v1/label/__name__/values''
         \<and> URL_Query u = [(''end'', [itoa tEnd]), (''match[]'', [selector]), (''start'', [itoa tStart])]
         \<and> tStart = now1 - 3600 \<and> tEnd = now2 \<and> tEnd - tStart = 3600 + (now2 - now1)"
proof -
  let ?Q = "(QueryEscape ''end'' @ CHR ''='' # QueryEscape (itoa now2)) @ ''&''
                   @ (QueryEscape ''match[]'' @ CHR ''='' # QueryEscape selector) @ ''&''
                   @ (QueryEscape ''start'' @ CHR ''='' # QueryEscape (itoa (now1 - 3600)))"
  let ?url = "''https://'' @ h @ ''/api/v1/label/__name__/values'' @ ''?'' @ ?Q"
  let ?u = "\<lparr>Scheme = ''https'', Opaque = [], User = None, Host = h,
                Path = ''/api/v1/label/__name__/values'', RawPath = [],
                OmitHost = False, ForceQuery = False, RawQuery = ?Q,
                Fragment = [], RawFragment = []\<rparr>"
  have 1: "getMetricList_url h now1 now2 = Inr ?url"
    using assms by (rule getMetricList_url_host)
  have 2: "?url = ''https://'' @ h @ ''/api/v1/label/__name__/values?end='' @ itoa now2
                 @ ''&match%5B%5D=%7B__name__%3D~%22%28ceph%7CCeph%7Cnoobaa%7CNooBaa%7Cocs%7Codf%29.%2B%22%7D''
                 @ ''&start='' @ itoa (now1 - 3600)"
    by (simp add: escaped_keys escaped_selector QueryEscape_itoa)
  have 3: "url_Parse ?url = Inr ?u"
    using assms(1) by (rule label_url_parses)
  have 4: "URL_Query ?u = [(''end'', [itoa now2]), (''match[]'', [selector]),
                            (''start'', [itoa (now1 - 3600)])]"
    by (rule URL_Query_label) simp_all
  have 5: "now2 - (now1 - 3600) = 3600 + (now2 - now1)" by simp
  show ?thesis
    apply (rule exI[of _ ?url], rule exI[of _ ?u])
    apply (rule exI[of _ "now1 - 3600"], rule exI[of _ now2])
    using 1 2 3 4 5 apply simp
    done
qed

theorem getMetricList_url_target_witness:
  "parseAuthority ''127.0.0.1:9091'' = Inr (None, ''127.0.0.1:9091'')
   \<and> escape ''127.0.0.1:9091'' encodeHost = ''127.0.0.1:9091''
   \<and> (\<exists>url u tStart tEnd.
           getMetricList_url ''127.0.0.1:9091'' 1700000000 1700000000 = Inr url
         \<and> url = ''https://'' @ ''127.0.0.1:9091'' @ ''/api/v1/label/__name__/values?end='' @ itoa tEnd
                 @ ''&match%5B%5D=%7B__name__%3D~%22%28ceph%7CCeph%7Cnoobaa%7CNooBaa%7Cocs%7Codf%29.%2B%22%7D''
                 @ ''&start='' @ itoa tStart
         \<and> url_Parse url = Inr u \<and> Scheme u = ''https'' \<and> Host u = ''127.0.0.1:9091''
         \<and> Path u = ''/api/v1/label/__name__/values''
         \<and> URL_Query u = [(''end'', [itoa tEnd]), (''match[]'', [selector]), (''start'', [itoa tStart])]
         \<and> tStart = 1700000000 - 3600 \<and> tEnd = 1700000000
         \<and> tEnd - tStart = 3600 + (1700000000 - 1700000000))"
proof -
  note a = accepted_hosts(3) and e = accepted_hosts(4)
  from a e getMetricList_url_target [OF a e, of 1700000000 1700000000] show ?thesis
    by (intro conjI)
qed

text \<open>
  C3 as the specification states it, for every host string and with \<open>end - start\<close>
  equal to 3600, fails. The clock is read once for \<open>start\<close> and once more for \<open>end\<close>:
  when a second passes between the two readings, \<open>end - start\<close> is 3601. And a host
  string is not always read as a host. For \<open>example.com/a/b\<close> the URL is resolved
  against the path \<open>/a/b\<close> and targets \<open>https://example.com/a/api/v1/...\<close>, not
  \<open>https://example.com/a/b/api/v1/...\<close>. For \<open>u@example.com\<close> the request goes to the
  host \<open>example.com\<close>, with \<open>u\<close> as user information. For the two bytes of a non-ASCII
  letter, \<open>URL.String\<close> prints the host percent-escaped, so the text of the URL does not
  hold the host string.
\<close>

theorem getMetricList_url_counterexample:
  "getMetricList_url ''example.com'' 1700000000 1700000001 =
     Inr ''https://example.com/api/v1/label/__name__/values?end=1700000001&match%5B%5D=%7B__name__%3D~%22%28ceph%7CCeph%7Cnoobaa%7CNooBaa%7Cocs%7Codf%29.%2B%22%7D&start=1699996400''
   \<and> (1700000001 :: int) - 1699996400 = 3601
   \<and> getMetricList_url ''example.com/a/b'' 3600 3600 =
     Inr ''https://example.com/a/api/v1/label/__name__/values?end=3600&match%5B%5D=%7B__name__%3D~%22%28ceph%7CCeph%7Cnoobaa%7CNooBaa%7Cocs%7Codf%29.%2B%22%7D&start=0''
   \<and> getMetricList_url ''u@example.com'' 3600 3600 =
     Inr ''https://u@example.com/api/v1/label/__name__/values?end=3600&match%5B%5D=%7B__name__%3D~%22%28ceph%7CCeph%7Cnoobaa%7CNooBaa%7Cocs%7Codf%29.%2B%22%7D&start=0''
   \<and> (case url_Parse ''https://u@example.com/api/v1/label/__name__/values?end=3600&match%5B%5D=%7B__name__%3D~%22%28ceph%7CCeph%7Cnoobaa%7CNooBaa%7Cocs%7Codf%29.%2B%22%7D&start=0''
        of Inl e \<Rightarrow> [] | Inr u \<Rightarrow> Host u) = ''example.com''
   \<and> getMetricList_url [CHR 0xC3, CHR 0xA9] 3600 3600 =
     Inr ''https://%C3%A9/api/v1/label/__name__/values?end=3600&match%5B%5D=%7B__name__%3D~%22%28ceph%7CCeph%7Cnoobaa%7CNooBaa%7Cocs%7Codf%29.%2B%22%7D&start=0''"
proof -
  have 1: "getMetricList_url ''example.com'' 1700000000 1700000001 =
     Inr ''https://example.com/api/v1/label/__name__/values?end=1700000001&match%5B%5D=%7B__name__%3D~%22%28ceph%7CCeph%7Cnoobaa%7CNooBaa%7Cocs%7Codf%29.%2B%22%7D&start=1699996400''"
    by (simp only: getMetricList_url_host [OF accepted_hosts(1) accepted_hosts(2)] escaped_keys
          escaped_selector QueryEscape_itoa)
       (simp add: itoa_examples)
  have 2: "getMetricList_url ''example.com/a/b'' 3600 3600 =
     Inr ''https://example.com/a/api/v1/label/__name__/values?end=3600&match%5B%5D=%7B__name__%3D~%22%28ceph%7CCeph%7Cnoobaa%7CNooBaa%7Cocs%7Codf%29.%2B%22%7D&start=0''"
    by code_simp
  have 3: "getMetricList_url ''u@example.com'' 3600 3600 =
     Inr ''https://u@example.com/api/v1/label/__name__/values?end=3600&match%5B%5D=%7B__name__%3D~%22%28ceph%7CCeph%7Cnoobaa%7CNooBaa%7Cocs%7Codf%29.%2B%22%7D&start=0''"
    by code_simp
  have 4: "(case url_Parse ''https://u@example.com/api/v1/label/__name__/values?end=3600&match%5B%5D=%7B__name__%3D~%22%28ceph%7CCeph%7Cnoobaa%7CNooBaa%7Cocs%7Codf%29.%2B%22%7D&start=0''
        of Inl e \<Rightarrow> [] | Inr u \<Rightarrow> Host u) = ''example.com''"
    by code_simp
  have 5: "getMetricList_url [CHR 0xC3, CHR 0xA9] 3600 3600 =
     Inr ''https://%C3%A9/api/v1/label/__name__/values?end=3600&match%5B%5D=%7B__name__%3D~%22%28ceph%7CCeph%7Cnoobaa%7CNooBaa%7Cocs%7Codf%29.%2B%22%7D&start=0''"
    by code_simp
  from 1 2 3 4 5 show ?thesis by simp
qed

subsection \<open>The range query (C4)\<close>

text \<open>
  C4 (as amended). For every host string that \<open>url.Parse\<close> reads as the host and nothing
  else (as in C3: a host name or an IP address, with or without a port) and every metric
  name, \<open>getRangeQueryUrl\<close> returns, with no error, the URL
  \<open>https://<host>/api/v1/query_range\<close> with the query parameters \<open>end\<close>, \<open>query\<close>,
  \<open>start\<close> and \<open>step\<close>: parsed again, the URL has the scheme \<open>https\<close>, that host and
  that path, \<open>query\<close> is the metric name, byte for byte, \<open>step\<close> is \<open>60s\<close>, \<open>start\<close> is the
  decimal text of the first clock reading minus 3600 and \<open>end\<close> the decimal text of the
  second clock reading. So \<open>end - start\<close> is 3600 plus the seconds between the two
  readings of the clock: 3600 when both readings fall in the same second.
\<close>

theorem getRangeQueryUrl_target:
  assumes "parseAuthority h = Inr (None, h)" and "escape h encodeHost = h"
  shows "\<exists>url u tStart tEnd.
           getRangeQueryUrl h metric now1 now2 = (url, None)
         \<and> url = ''https://'' @ h @ ''/api/v1/query_range?end='' @ itoa tEnd
                 @ ''&query='' @ QueryEscape metric @ ''&start='' @ itoa tStart @ ''&step=60s''
         \<and> url_Parse url = Inr u \<and> Scheme u = ''https'' \<and> Host u = h
         \<and> Path u = ''/api/v1/query_range''
         \<and> URL_Query u = [(''end'', [itoa tEnd]), (''query'', [metric]),
                           (''start'', [itoa tStart]), (''step'', [''60s''])]
         \<and> tStart = now1 - 3600 \<and> tEnd = now2 \<and> tEnd - tStart = 3600 + (now2 - now1)"
proof -
  let ?Q = "(QueryEscape ''end'' @ CHR ''='' # QueryEscape (itoa now2)) @ ''&''
                   @ (QueryEscape ''query'' @ CHR ''='' # QueryEscape metric) @ ''&''
                   @ (QueryEscape ''start'' @ CHR ''='' # QueryEscape (itoa (now1 - 3600))) @ ''&''
                   @ (QueryEscape ''step'' @ CHR ''='' # QueryEscape ''60s'')"
  let ?url = "''https://'' @ h @ ''/api/v1/query_range'' @ ''?'' @ ?Q"
  let ?u = "\<lparr>Scheme = ''https'', Opaque = [], User = None, Host = h,
                Path = ''/api/v1/query_range'', RawPath = [],
                OmitHost = False, ForceQuery = False, RawQuery = ?Q,
                Fragment = [], RawFragment = []\<rparr>"
  have 1: "getRangeQueryUrl h metric now1 now2 = (?url, None)"
    using assms by (rule getRangeQueryUrl_host)
  have 2: "?url = ''https://'' @ h @ ''/api/v1/query_range?end='' @ itoa now2
                 @ ''&query='' @ QueryEscape metric @ ''&start='' @ itoa (now1 - 3600)
                 @ ''&step=60s''"
    by (simp add: escaped_keys QueryEscape_itoa)
  have 3: "url_Parse ?url = Inr ?u"
    using assms(1) by (rule range_url_parses)
  have 4: "URL_Query ?u = [(''end'', [itoa now2]), (''query'', [metric]),
                            (''start'', [itoa (now1 - 3600)]), (''step'', [''60s''])]"
    by (rule URL_Query_range) simp_all
  have 5: "now2 - (now1 - 3600) = 3600 + (now2 - now1)" by simp
  show ?thesis
    apply (rule exI[of _ ?url], rule exI[of _ ?u])
    apply (rule exI[of _ "now1 - 3600"], rule exI[of _ now2])
    using 1 2 3 4 5 apply simp
    done
qed

theorem getRangeQueryUrl_target_witness:
  "parseAuthority ''127.0.0.1:9091'' = Inr (None, ''127.0.0.1:9091'')
   \<and> escape ''127.0.0.1:9091'' encodeHost = ''127.0.0.1:9091''
   \<and> (\<exists>url u tStart tEnd.
           getRangeQueryUrl ''127.0.0.1:9091'' ''ceph_osd_up'' 1700000000 1700000000 = (url, None)
         \<and> url = ''https://'' @ ''127.0.0.1:9091'' @ ''/api/v1/query_range?end='' @ itoa tEnd
                 @ ''&query='' @ QueryEscape ''ceph_osd_up'' @ ''&start='' @ itoa tStart
                 @ ''&step=60s''
         \<and> url_Parse url = Inr u \<and> Scheme u = ''https'' \<and> Host u = ''127.0.0.1:9091''
         \<and> Path u = ''/api/v1/query_range''
         \<and> URL_Query u = [(''end'', [itoa tEnd]), (''query'', [''ceph_osd_up'']),
                           (''start'', [itoa tStart]), (''step'', [''60s''])]
         \<and> tStart = 1700000000 - 3600 \<and> tEnd = 1700000000
         \<and> tEnd - tStart = 3600 + (1700000000 - 1700000000))"
proof -
  note a = accepted_hosts(3) and e = accepted_hosts(4)
  from a e getRangeQueryUrl_target [OF a e, of "''ceph_osd_up''" 1700000000 1700000000]
  show ?thesis by (intro conjI)
qed

text \<open>
  C4 as the specification states it fails in the same ways as C3: with a second between
  the two readings of the clock \<open>end - start\<close> is 3601; for the host string
  \<open>example.com/a/b\<close> the URL targets \<open>https://example.com/a/api/v1/query_range\<close>; for
  \<open>u@example.com\<close> the request goes to the host \<open>example.com\<close>; and the two bytes of a
  non-ASCII letter are printed percent-escaped.
\<close>

theorem getRangeQueryUrl_counterexample:
  "getRangeQueryUrl ''example.com'' ''ceph_osd_up'' 1700000000 1700000001 =
     (''https://example.com/api/v1/query_range?end=1700000001&query=ceph_osd_up&start=1699996400&step=60s'',
      None)
   \<and> (1700000001 :: int) - 1699996400 = 3601
   \<and> getRangeQueryUrl ''example.com/a/b'' ''ceph_osd_up'' 3600 3600 =
     (''https://example.com/a/api/v1/query_range?end=3600&query=ceph_osd_up&start=0&step=60s'',
      None)
   \<and> getRangeQueryUrl ''u@example.com'' ''ceph_osd_up'' 3600 3600 =
     (''https://u@example.com/api/v1/query_range?end=3600&query=ceph_osd_up&start=0&step=60s'',
      None)
   \<and> (case url_Parse ''https://u@example.com/api/v1/query_range?end=3600&query=ceph_osd_up&start=0&step=60s''
        of Inl e \<Rightarrow> [] | Inr u \<Rightarrow> Host u) = ''example.com''
   \<and> getRangeQueryUrl [CHR 0xC3, CHR 0xA9] ''ceph_osd_up'' 3600 3600 =
     (''https://%C3%A9/api/v1/query_range?end=3600&query=ceph_osd_up&start=0&step=60s'', None)"
proof -
  have m: "QueryEscape ''ceph_osd_up'' = ''ceph_osd_up''" by code_simp
  have 1: "getRangeQueryUrl ''example.com'' ''ceph_osd_up'' 1700000000 1700000001 =
     (''https://example.com/api/v1/query_range?end=1700000001&query=ceph_osd_up&start=1699996400&step=60s'',
      None)"
    by (simp only: getRangeQueryUrl_host [OF accepted_hosts(1) accepted_hosts(2)] escaped_keys
          QueryEscape_itoa m)
       (simp add: itoa_examples)
  have 2: "getRangeQueryUrl ''example.com/a/b'' ''ceph_osd_up'' 3600 3600 =
     (''https://example.com/a/api/v1/query_range?end=3600&query=ceph_osd_up&start=0&step=60s'',
      None)"
    by code_simp
  have 3: "getRangeQueryUrl ''u@example.com'' ''ceph_osd_up'' 3600 3600 =
     (''https://u@example.com/api/v1/query_range?end=3600&query=ceph_osd_up&start=0&step=60s'',
      None)"
    by code_simp
  have 4: "(case url_Parse ''https://u@example.com/api/v1/query_range?end=3600&query=ceph_osd_up&start=0&step=60s''
        of Inl e \<Rightarrow> [] | Inr u \<Rightarrow> Host u) = ''example.com''"
    by code_simp
  have 5: "getRangeQueryUrl [CHR 0xC3, CHR 0xA9] ''ceph_osd_up'' 3600 3600 =
     (''https://%C3%A9/api/v1/query_range?end=3600&query=ceph_osd_up&start=0&step=60s'', None)"
    by code_simp
  from 1 2 3 4 5 show ?thesis by simp
qed

end
